theory Spec2Isabelle
  imports Main
begin

section \<open>Strings, the runtime's tables and character classes\<close>

text \<open>
  A Python \<^verbatim>\<open>str\<close> is a sequence of Unicode code points, modelled as a list of
  naturals. \<open>u\<close> reads an ASCII literal as such a string.
\<close>

type_synonym ustr = "nat list"

definition u :: "string \<Rightarrow> ustr" where
  "u s = map of_char s"

text \<open>
  \<^verbatim>\<open>app/normalize.py\<close> relies on tables of the Python runtime that are not part of
  the repository: the Unicode character database behind \<^verbatim>\<open>\d\<close>, \<^verbatim>\<open>\w\<close>,
  \<^verbatim>\<open>re.I\<close> and \<^verbatim>\<open>str.upper\<close>, and the entity table behind
  \<^verbatim>\<open>html.unescape\<close>. What these tables say about ASCII is written out below; what
  they say beyond ASCII is a parameter of the model, so every theorem holds for every
  such table.
  \<^item> \<open>is_decimal c\<close>: \<^verbatim>\<open>\d\<close> matches the code point \<open>c \<ge> 128\<close>;
  \<^item> \<open>is_alnum c\<close>: \<^verbatim>\<open>str.isalnum\<close> of the code point \<open>c \<ge> 128\<close>;
  \<^item> \<open>to_lower c\<close>: the simple lower-case mapping of \<open>c \<ge> 128\<close>, which
    \<^verbatim>\<open>re.I\<close> compares;
  \<^item> \<open>to_upper c\<close>: \<^verbatim>\<open>str.upper\<close> of the one-character string \<open>c \<ge> 128\<close>;
  \<^item> \<open>charref_sub s\<close>: what \<^verbatim>\<open>html.unescape\<close> returns for a string \<open>s\<close> that
    contains an ampersand.
\<close>

record runtime =
  is_decimal :: "nat \<Rightarrow> bool"
  is_alnum :: "nat \<Rightarrow> bool"
  to_lower :: "nat \<Rightarrow> nat"
  to_upper :: "nat \<Rightarrow> ustr"
  charref_sub :: "ustr \<Rightarrow> ustr"

text \<open>\<^verbatim>\<open>\s\<close> and \<^verbatim>\<open>str.strip\<close>: the code points Python counts as whitespace.\<close>

definition isspace :: "nat \<Rightarrow> bool" where
  "isspace c = ((9 \<le> c \<and> c \<le> 13) \<or> (28 \<le> c \<and> c \<le> 32) \<or> c = 133 \<or> c = 160
     \<or> c = 5760 \<or> (8192 \<le> c \<and> c \<le> 8202) \<or> c = 8232 \<or> c = 8233 \<or> c = 8239
     \<or> c = 8287 \<or> c = 12288)"

text \<open>\<^verbatim>\<open>\d\<close>.\<close>

definition isdigit :: "runtime \<Rightarrow> nat \<Rightarrow> bool" where
  "isdigit R c = (if c < 128 then 48 \<le> c \<and> c \<le> 57 else is_decimal R c)"

text \<open>\<^verbatim>\<open>\w\<close>: alphanumeric or underscore.\<close>

definition isword :: "runtime \<Rightarrow> nat \<Rightarrow> bool" where
  "isword R c = (if c < 128
     then (48 \<le> c \<and> c \<le> 57) \<or> (65 \<le> c \<and> c \<le> 90) \<or> (97 \<le> c \<and> c \<le> 122) \<or> c = 95
     else is_alnum R c)"

definition lower :: "runtime \<Rightarrow> nat \<Rightarrow> nat" where
  "lower R c = (if c < 128 then (if 65 \<le> c \<and> c \<le> 90 then c + 32 else c) else to_lower R c)"

text \<open>\<^verbatim>\<open>str.upper\<close> of one character.\<close>

definition upper :: "runtime \<Rightarrow> nat \<Rightarrow> ustr" where
  "upper R c = (if c < 128 then [if 97 \<le> c \<and> c \<le> 122 then c - 32 else c] else to_upper R c)"

text \<open>
  A literal \<open>a\<close> of a pattern compiled with \<^verbatim>\<open>re.I\<close> against the character \<open>c\<close> of
  the text. All literals of the program's patterns are ASCII. A letter matches every
  character whose lower case is that letter, and \<^verbatim>\<open>i\<close> and \<^verbatim>\<open>s\<close> also match
  U+0131 and U+017F (the equivalences of \<^verbatim>\<open>sre_compile\<close>); any other literal
  matches itself only.
\<close>

definition ci :: "runtime \<Rightarrow> nat \<Rightarrow> nat \<Rightarrow> bool" where
  "ci R a c = (if (65 \<le> a \<and> a \<le> 90) \<or> (97 \<le> a \<and> a \<le> 122)
     then lower R c = lower R a \<or> (lower R a = 105 \<and> lower R c = 305)
       \<or> (lower R a = 115 \<and> lower R c = 383)
     else c = a)"

text \<open>The text starts with the literal string \<open>p\<close>, compared under \<^verbatim>\<open>re.I\<close>:
  the rest of the text after it.\<close>

fun lit_ci :: "runtime \<Rightarrow> ustr \<Rightarrow> ustr \<Rightarrow> ustr option" where
  "lit_ci R [] s = Some s"
| "lit_ci R (a # p) [] = None"
| "lit_ci R (a # p) (c # s) = (if ci R a c then lit_ci R p s else None)"

text \<open>\<^verbatim>\<open>\s*\<close>, greedy.\<close>

definition skip_ws :: "ustr \<Rightarrow> ustr" where
  "skip_ws s = dropWhile isspace s"

text \<open>\<^verbatim>\<open>str.strip()\<close> and \<^verbatim>\<open>str.rstrip(chars)\<close>.\<close>

definition rstrip :: "(nat \<Rightarrow> bool) \<Rightarrow> ustr \<Rightarrow> ustr" where
  "rstrip P s = rev (dropWhile P (rev s))"

definition strip :: "ustr \<Rightarrow> ustr" where
  "strip s = rstrip isspace (dropWhile isspace s)"

section \<open>Searching, substituting and splitting\<close>

text \<open>
  A pattern is modelled by its matcher: given the character before the current position
  (\<open>None\<close> at the start of the text; the patterns look behind by one character at
  most) and the text from the position on, it returns the groups of the match that
  Python's backtracking search finds first at that position, and the text after the
  match. No pattern of the program matches the empty string, so a matcher's rest is
  always shorter than its text.
\<close>

type_synonym 'g matcher = "nat option \<Rightarrow> ustr \<Rightarrow> ('g \<times> ustr) option"

text \<open>The character before the rest \<open>r\<close> of the text \<open>s\<close>.\<close>

definition last_before :: "ustr \<Rightarrow> ustr \<Rightarrow> nat option" where
  "last_before s r = Some (last (take (length s - length r) s))"

text \<open>\<^verbatim>\<open>pattern.search(s)\<close>: the groups of the leftmost match.\<close>

fun re_search_from :: "'g matcher \<Rightarrow> nat option \<Rightarrow> ustr \<Rightarrow> 'g option" where
  "re_search_from m prev [] = None"
| "re_search_from m prev (c # cs) =
     (case m prev (c # cs) of
        Some (g, r) \<Rightarrow> Some g
      | None \<Rightarrow> re_search_from m (Some c) cs)"

definition re_search :: "'g matcher \<Rightarrow> ustr \<Rightarrow> 'g option" where
  "re_search m s = re_search_from m None s"

text \<open>\<^verbatim>\<open>pattern.sub(repl, s)\<close>: every match, left to right and not overlapping, is
  replaced.\<close>

function re_sub_from :: "'g matcher \<Rightarrow> ('g \<Rightarrow> ustr) \<Rightarrow> nat option \<Rightarrow> ustr \<Rightarrow> ustr" where
  "re_sub_from m rep prev [] = []"
| "re_sub_from m rep prev (c # cs) =
     (case m prev (c # cs) of
        Some (g, r) \<Rightarrow>
          if length r \<le> length cs
          then rep g @ re_sub_from m rep (last_before (c # cs) r) r
          else c # re_sub_from m rep (Some c) cs
      | None \<Rightarrow> c # re_sub_from m rep (Some c) cs)"
  by pat_completeness auto
termination
  by (relation "measure (\<lambda>(m, rep, prev, s). length s)") auto

definition re_sub :: "'g matcher \<Rightarrow> ('g \<Rightarrow> ustr) \<Rightarrow> ustr \<Rightarrow> ustr" where
  "re_sub m rep s = re_sub_from m rep None s"

text \<open>\<^verbatim>\<open>pattern.sub(repl, s, count=1)\<close>: only the leftmost match is replaced.\<close>

fun re_sub1_from :: "'g matcher \<Rightarrow> ('g \<Rightarrow> ustr) \<Rightarrow> nat option \<Rightarrow> ustr \<Rightarrow> ustr" where
  "re_sub1_from m rep prev [] = []"
| "re_sub1_from m rep prev (c # cs) =
     (case m prev (c # cs) of
        Some (g, r) \<Rightarrow> rep g @ r
      | None \<Rightarrow> c # re_sub1_from m rep (Some c) cs)"

definition re_sub1 :: "'g matcher \<Rightarrow> ('g \<Rightarrow> ustr) \<Rightarrow> ustr \<Rightarrow> ustr" where
  "re_sub1 m rep s = re_sub1_from m rep None s"

text \<open>\<^verbatim>\<open>re.split(pattern, s)\<close> for a pattern without groups: the pieces between the
  matches. \<open>cur\<close> is the piece read so far, reversed.\<close>

function re_split_from :: "'g matcher \<Rightarrow> ustr \<Rightarrow> nat option \<Rightarrow> ustr \<Rightarrow> ustr list" where
  "re_split_from m cur prev [] = [rev cur]"
| "re_split_from m cur prev (c # cs) =
     (case m prev (c # cs) of
        Some (g, r) \<Rightarrow>
          if length r \<le> length cs
          then rev cur # re_split_from m [] (last_before (c # cs) r) r
          else re_split_from m (c # cur) (Some c) cs
      | None \<Rightarrow> re_split_from m (c # cur) (Some c) cs)"
  by pat_completeness auto
termination
  by (relation "measure (\<lambda>(m, cur, prev, s). length s)") auto

definition re_split :: "'g matcher \<Rightarrow> ustr \<Rightarrow> ustr list" where
  "re_split m s = re_split_from m [] None s"

text \<open>\<^verbatim>\<open>sep.join(parts)\<close>.\<close>

fun join :: "ustr \<Rightarrow> ustr list \<Rightarrow> ustr" where
  "join sep [] = []"
| "join sep [p] = p"
| "join sep (p # q # ps) = p @ sep @ join sep (q # ps)"

section \<open>The scrubber\<close>

text \<open>\<^verbatim>\<open>_RE_CONTROL = [\u0000-\u001F\u007F]\<close>\<close>

definition RE_CONTROL :: "unit matcher" where
  "RE_CONTROL prev s = (case s of
     [] \<Rightarrow> None
   | c # r \<Rightarrow> if c \<le> 31 \<or> c = 127 then Some ((), r) else None)"

text \<open>\<^verbatim>\<open>_RE_MULTI_SPACE = [ \t\u00A0]{2,}\<close>\<close>

definition RE_MULTI_SPACE :: "unit matcher" where
  "RE_MULTI_SPACE prev s =
     (if 2 \<le> length (takeWhile (\<lambda>c. c = 32 \<or> c = 9 \<or> c = 160) s)
      then Some ((), dropWhile (\<lambda>c. c = 32 \<or> c = 9 \<or> c = 160) s) else None)"

text \<open>\<^verbatim>\<open>_RE_WS = \s+\<close>\<close>

definition RE_WS :: "unit matcher" where
  "RE_WS prev s = (case s of
     [] \<Rightarrow> None
   | c # r \<Rightarrow> if isspace c then Some ((), skip_ws r) else None)"

text \<open>
  \<^verbatim>\<open>_RE_TRAIL_SEPS = ([,;/|\-])\s*([,;/|\-])+\<close>; the group returned is group 1.
  A separator is no whitespace, so giving back whitespace of \<^verbatim>\<open>\s*\<close> never helps,
  and the greedy \<^verbatim>\<open>+\<close> takes the whole run of separators.
\<close>

definition issep :: "nat \<Rightarrow> bool" where
  "issep c = (c = 44 \<or> c = 59 \<or> c = 47 \<or> c = 124 \<or> c = 45)"

definition RE_TRAIL_SEPS :: "nat matcher" where
  "RE_TRAIL_SEPS prev s = (case s of
     [] \<Rightarrow> None
   | c # r \<Rightarrow>
       if issep c \<and> takeWhile issep (skip_ws r) \<noteq> []
       then Some (c, dropWhile issep (skip_ws r)) else None)"

text \<open>\<^verbatim>\<open>_RE_BAD_TOKS\<close>, the table of \<^verbatim>\<open>str.translate\<close>: curly quotes, the
  multiplication sign, dashes, bullets, stars, CJK brackets and the ideographic comma.\<close>

definition bad_tok :: "nat \<Rightarrow> ustr" where
  "bad_tok c =
    (if c = 8220 \<or> c = 8221 \<or> c = 8222 \<or> c = 8223 then [34]
     else if c = 8217 \<or> c = 8216 \<or> c = 8218 \<or> c = 8219 then [39]
     else if c = 215 then [120]
     else if c = 8211 \<or> c = 8212 \<or> c = 8210 then [45]
     else if c = 8226 \<or> c = 9733 \<or> c = 9734 \<or> c = 12304 \<or> c = 12305 then [32]
     else if c = 12289 then [44, 32]
     else [c])"

definition translate :: "ustr \<Rightarrow> ustr" where
  "translate s = concat (map bad_tok s)"

text \<open>\<^verbatim>\<open>html.unescape\<close> returns a string without an ampersand as it is.\<close>

definition html_unescape :: "runtime \<Rightarrow> ustr \<Rightarrow> ustr" where
  "html_unescape R s = (if 38 \<in> set s then charref_sub R s else s)"

definition strip_controls :: "runtime \<Rightarrow> ustr \<Rightarrow> ustr" where
  "strip_controls R s0 =
    (let s = re_sub RE_CONTROL (\<lambda>_. [32]) s0;
         s = translate s;
         s = html_unescape R s;
         s = re_sub RE_TRAIL_SEPS (\<lambda>c. [c, 32]) s;
         s = re_sub RE_MULTI_SPACE (\<lambda>_. [32]) s;
         s = re_sub RE_WS (\<lambda>_. [32]) s
     in strip s)"

section \<open>Delimiters and boilerplate\<close>

text \<open>\<^verbatim>\<open>\s*[|/]\s*\<close>. A delimiter is no whitespace, so only the whole run of whitespace
  before it leads to a match.\<close>

definition RE_DELIM :: "unit matcher" where
  "RE_DELIM prev s = (case skip_ws s of
     [] \<Rightarrow> None
   | c # r \<Rightarrow> if c = 124 \<or> c = 47 then Some ((), skip_ws r) else None)"

text \<open>\<^verbatim>\<open>\s*,\s*,+\s*\<close>\<close>

definition RE_COMMAS :: "unit matcher" where
  "RE_COMMAS prev s = (case skip_ws s of
     [] \<Rightarrow> None
   | c # r \<Rightarrow>
       if c = 44 \<and> takeWhile (\<lambda>c. c = 44) (skip_ws r) \<noteq> []
       then Some ((), skip_ws (dropWhile (\<lambda>c. c = 44) (skip_ws r))) else None)"

definition normalize_delims :: "ustr \<Rightarrow> ustr" where
  "normalize_delims s0 =
    (let s = re_sub RE_DELIM (\<lambda>_. u '', '') s0;
         s = re_sub RE_COMMAS (\<lambda>_. u '', '') s
     in s)"

text \<open>A literal pattern under \<^verbatim>\<open>re.I\<close>, such as \<^verbatim>\<open>customer service\<close>.\<close>

definition RE_LIT :: "runtime \<Rightarrow> ustr \<Rightarrow> unit matcher" where
  "RE_LIT R p prev s = map_option (Pair ()) (lit_ci R p s)"

text \<open>\<^verbatim>\<open>0\s*risk purchase\<close>\<close>

definition RE_RISK :: "runtime \<Rightarrow> unit matcher" where
  "RE_RISK R prev s = (case s of
     [] \<Rightarrow> None
   | c # r \<Rightarrow> if c = 48 then map_option (Pair ()) (lit_ci R (u ''risk purchase'') (skip_ws r))
       else None)"

text \<open>The lazy \<^verbatim>\<open>.*?\<close> followed by a literal: the first place where the literal
  starts, reached without crossing a line feed (which \<^verbatim>\<open>.\<close> does not match).\<close>

fun lazy_until :: "runtime \<Rightarrow> ustr \<Rightarrow> ustr \<Rightarrow> ustr option" where
  "lazy_until R p [] = lit_ci R p []"
| "lazy_until R p (c # s) =
     (case lit_ci R p (c # s) of
        Some r \<Rightarrow> Some r
      | None \<Rightarrow> if c = 10 then None else lazy_until R p s)"

text \<open>\<^verbatim>\<open>contact us.*?purchase\<close> and \<^verbatim>\<open>we will do our best.*?satisfied\<close>\<close>

definition RE_SPAN :: "runtime \<Rightarrow> ustr \<Rightarrow> ustr \<Rightarrow> unit matcher" where
  "RE_SPAN R p q prev s = (case lit_ci R p s of
     None \<Rightarrow> None
   | Some r \<Rightarrow> map_option (Pair ()) (lazy_until R q r))"

definition DROP :: "runtime \<Rightarrow> unit matcher list" where
  "DROP R =
    [RE_LIT R (u ''customer service''),
     RE_RISK R,
     RE_LIT R (u ''perfect shopping experience''),
     RE_SPAN R (u ''contact us'') (u ''purchase''),
     RE_SPAN R (u ''we will do our best'') (u ''satisfied'')]"

definition drop_boiler :: "runtime \<Rightarrow> ustr \<Rightarrow> ustr" where
  "drop_boiler R s = fold (\<lambda>p s. re_sub p (\<lambda>_. [32]) s) (DROP R) s"

section \<open>Sentences\<close>

text \<open>\<^verbatim>\<open>[A-Z0-9]\<close>\<close>

definition is_AZ09 :: "nat \<Rightarrow> bool" where
  "is_AZ09 c = ((65 \<le> c \<and> c \<le> 90) \<or> (48 \<le> c \<and> c \<le> 57))"

text \<open>
  \<^verbatim>\<open>(?<=[.!?])\s+(?=[A-Z0-9])|(?<=\")\s+(?=[A-Z0-9])\<close>: whitespace after one of
  \<^verbatim>\<open>. ! ? "\<close> and before a capital or a digit. Only the whole run of whitespace is
  followed by a character that is no whitespace.
\<close>

definition RE_SENT :: "unit matcher" where
  "RE_SENT prev s = (case prev of
     None \<Rightarrow> None
   | Some b \<Rightarrow>
       if (b = 46 \<or> b = 33 \<or> b = 63 \<or> b = 34) \<and> takeWhile isspace s \<noteq> []
       then (case skip_ws s of
               [] \<Rightarrow> None
             | c # r \<Rightarrow> if is_AZ09 c then Some ((), c # r) else None)
       else None)"

text \<open>The body of the loop of \<^verbatim>\<open>_sentenceize\<close> over the parts; \<open>out\<close> is the list
  built so far.\<close>

fun sentence_loop :: "runtime \<Rightarrow> ustr list \<Rightarrow> ustr list \<Rightarrow> ustr list" where
  "sentence_loop R [] out = out"
| "sentence_loop R (p0 # parts) out =
     (let p = strip p0 in
      if p = [] then sentence_loop R parts out
      else
        let p = (if is_AZ09 (hd p) \<or> hd p = 34 then p else upper R (hd p) @ tl p)
        in sentence_loop R parts (out @ [rstrip (\<lambda>c. c = 44 \<or> c = 59) p]))"

definition sentenceize :: "runtime \<Rightarrow> ustr \<Rightarrow> ustr" where
  "sentenceize R s = join [32] (sentence_loop R (re_split RE_SENT (strip s)) [])"

section \<open>Dimensions\<close>

text \<open>
  \<^verbatim>\<open>\d+(?:\.\d+)?\<close>: the number and the rest of the text. In each of the three
  patterns below, what follows a number starts with whitespace, a quote, a letter or a
  parenthesis, never with a digit or a dot, so a shorter number never leads to a match
  where the longest one does not.
\<close>

definition number :: "runtime \<Rightarrow> ustr \<Rightarrow> (ustr \<times> ustr) option" where
  "number R s =
    (let ds = takeWhile (isdigit R) s; r = dropWhile (isdigit R) s in
     if ds = [] then None
     else (case r of
             [] \<Rightarrow> Some (ds, r)
           | c # r' \<Rightarrow>
               if c = 46 \<and> takeWhile (isdigit R) r' \<noteq> []
               then Some (ds @ [46] @ takeWhile (isdigit R) r', dropWhile (isdigit R) r')
               else Some (ds, r)))"

text \<open>\<^verbatim>\<open>["\u201D]?\<close>, \<^verbatim>\<open>(?:\(w\))?\<close> and \<^verbatim>\<open>[x\u00D7]\<close> under \<^verbatim>\<open>(?i)\<close>.\<close>

definition opt_quote :: "ustr \<Rightarrow> ustr" where
  "opt_quote s = (case s of [] \<Rightarrow> [] | c # r \<Rightarrow> if c = 34 \<or> c = 8221 then r else c # r)"

definition opt_lit :: "runtime \<Rightarrow> ustr \<Rightarrow> ustr \<Rightarrow> ustr" where
  "opt_lit R p s = (case lit_ci R p s of Some r \<Rightarrow> r | None \<Rightarrow> s)"

definition is_times :: "runtime \<Rightarrow> nat \<Rightarrow> bool" where
  "is_times R c = (lower R c = 120 \<or> lower R c = 215)"

text \<open>
  \<^verbatim>\<open>_RE_DIM_INCH = (?ix)(?P<w>\d+(?:\.\d+)?)\s*["\u201D]?\s*(?:\(w\))?\s*[x\u00D7]\s*(?P<l>\d+(?:\.\d+)?)\s*["\u201D]?\s*(?:\(l\))?\<close>.
  The groups are \<open>(w, l)\<close>. Each optional part is taken when it is there: what
  follows it cannot start the way it does.
\<close>

definition RE_DIM_INCH :: "runtime \<Rightarrow> (ustr \<times> ustr) matcher" where
  "RE_DIM_INCH R prev s = (case number R s of
     None \<Rightarrow> None
   | Some (w, r) \<Rightarrow>
       (case skip_ws (opt_lit R (u ''(w)'') (skip_ws (opt_quote (skip_ws r)))) of
          [] \<Rightarrow> None
        | c # r \<Rightarrow>
            if is_times R c
            then (case number R (skip_ws r) of
                    None \<Rightarrow> None
                  | Some (l, r) \<Rightarrow>
                      Some ((w, l), opt_lit R (u ''(l)'') (skip_ws (opt_quote (skip_ws r)))))
            else None))"

text \<open>\<^verbatim>\<open>_RE_DIM_CM = (?ix)(?P<w>\d+(?:\.\d+)?)\s*cm\s*[x\u00D7]\s*(?P<l>\d+(?:\.\d+)?)\s*cm\<close>\<close>

definition RE_DIM_CM :: "runtime \<Rightarrow> (ustr \<times> ustr) matcher" where
  "RE_DIM_CM R prev s = (case number R s of
     None \<Rightarrow> None
   | Some (w, r) \<Rightarrow>
       (case lit_ci R (u ''cm'') (skip_ws r) of
          None \<Rightarrow> None
        | Some r \<Rightarrow>
            (case skip_ws r of
               [] \<Rightarrow> None
             | c # r \<Rightarrow>
                 if is_times R c
                 then (case number R (skip_ws r) of
                         None \<Rightarrow> None
                       | Some (l, r) \<Rightarrow>
                           map_option (Pair (w, l)) (lit_ci R (u ''cm'') (skip_ws r)))
                 else None)))"

text \<open>\<^verbatim>\<open>(?P<t>\d+(?:\.\d+)?)\s*(?:inch|in|")\<close>, the alternatives in their order.\<close>

definition thick_value :: "runtime \<Rightarrow> ustr \<Rightarrow> (ustr \<times> ustr) option" where
  "thick_value R s = (case number R s of
     None \<Rightarrow> None
   | Some (t, r) \<Rightarrow>
       (case lit_ci R (u ''inch'') (skip_ws r) of
          Some r' \<Rightarrow> Some (t, r')
        | None \<Rightarrow>
            (case lit_ci R (u ''in'') (skip_ws r) of
               Some r' \<Rightarrow> Some (t, r')
             | None \<Rightarrow> map_option (Pair t) (lit_ci R [34] (skip_ws r)))))"

text \<open>
  \<^verbatim>\<open>_RE_THICK = (?ix)(?:thickness[:\s]*)?(?P<t>\d+(?:\.\d+)?)\s*(?:inch|in|")\<close>:
  first with the prefix, then, when that finds no match, without it. After the prefix
  only the whole run of colons and whitespace is followed by a digit.
\<close>

definition RE_THICK :: "runtime \<Rightarrow> ustr matcher" where
  "RE_THICK R prev s =
    (case (case lit_ci R (u ''thickness'') s of
             None \<Rightarrow> None
           | Some r \<Rightarrow> thick_value R (dropWhile (\<lambda>c. c = 58 \<or> isspace c) r)) of
       Some m \<Rightarrow> Some m
     | None \<Rightarrow> thick_value R s)"

text \<open>The \<^verbatim>\<open>dims\<close> dictionary is a map from its keys to numerals.\<close>

type_synonym dims = "string \<rightharpoonup> ustr"

definition normalize_dimensions :: "runtime \<Rightarrow> ustr \<Rightarrow> ustr \<times> dims" where
  "normalize_dimensions R text0 =
    (let dims = Map.empty;
         out = text0;
         (out, dims) =
           (case re_search (RE_DIM_INCH R) out of
              Some (w, l) \<Rightarrow>
                (re_sub1 (RE_DIM_INCH R) (\<lambda>_. w @ [34, 32, 215, 32] @ l @ [34]) out,
                 dims(''width_in'' \<mapsto> w, ''length_in'' \<mapsto> l))
            | None \<Rightarrow> (out, dims));
         (out, dims) =
           (case re_search (RE_DIM_CM R) out of
              Some (wcm, lcm') \<Rightarrow>
                (re_sub1 (RE_DIM_CM R) (\<lambda>_. wcm @ [32, 215, 32] @ lcm' @ u '' cm'') out,
                 dims(''width_cm'' \<mapsto> wcm, ''length_cm'' \<mapsto> lcm'))
            | None \<Rightarrow> (out, dims));
         (out, dims) =
           (case re_search (RE_THICK R) out of
              Some t \<Rightarrow>
                (re_sub1 (RE_THICK R) (\<lambda>_. t @ [34] @ u '' thickness'') out,
                 dims(''thickness_in'' \<mapsto> t))
            | None \<Rightarrow> (out, dims))
     in (out, dims))"

section \<open>Feature bullets\<close>

text \<open>\<^verbatim>\<open>\b\<close> between the character \<open>prev\<close> and the text \<open>s\<close>.\<close>

definition wordb :: "runtime \<Rightarrow> nat option \<Rightarrow> ustr \<Rightarrow> bool" where
  "wordb R prev s =
    ((case prev of None \<Rightarrow> False | Some b \<Rightarrow> isword R b)
     \<noteq> (case s of [] \<Rightarrow> False | c # _ \<Rightarrow> isword R c))"

text \<open>\<^verbatim>\<open>[- ]?\<close>\<close>

definition opt_dash :: "ustr \<Rightarrow> ustr" where
  "opt_dash s = (case s of [] \<Rightarrow> [] | c # r \<Rightarrow> if c = 45 \<or> c = 32 then r else c # r)"

text \<open>A literal, \<^verbatim>\<open>[- ]?\<close>, a literal: \<^verbatim>\<open>anti[- ]?slip\<close>, \<^verbatim>\<open>non[- ]?slip\<close>.\<close>

definition lit_dash_lit :: "runtime \<Rightarrow> ustr \<Rightarrow> ustr \<Rightarrow> ustr \<Rightarrow> ustr option" where
  "lit_dash_lit R p q s = (case lit_ci R p s of
     None \<Rightarrow> None
   | Some r \<Rightarrow> lit_ci R q (opt_dash r))"

text \<open>\<^verbatim>\<open>\banti[- ]?slip|non[- ]?slip\b\<close>: the first alternative has the boundary
  before it, the second one after it.\<close>

definition RE_SLIP :: "runtime \<Rightarrow> unit matcher" where
  "RE_SLIP R prev s =
    (case (if wordb R prev s then lit_dash_lit R (u ''anti'') (u ''slip'') s else None) of
       Some r \<Rightarrow> Some ((), r)
     | None \<Rightarrow>
         (case lit_dash_lit R (u ''non'') (u ''slip'') s of
            None \<Rightarrow> None
          | Some r \<Rightarrow> if wordb R (last_before s r) r then Some ((), r) else None))"

text \<open>\<^verbatim>\<open>\bp\b\<close> for a literal \<open>p\<close>.\<close>

definition word_lit :: "runtime \<Rightarrow> ustr \<Rightarrow> nat option \<Rightarrow> ustr \<Rightarrow> ustr option" where
  "word_lit R p prev s =
    (if wordb R prev s
     then (case lit_ci R p s of
             None \<Rightarrow> None
           | Some r \<Rightarrow> if wordb R (last_before s r) r then Some r else None)
     else None)"

text \<open>\<^verbatim>\<open>\b(p|q)\b\<close> for literals \<open>p\<close> and \<open>q\<close>; \<^verbatim>\<open>\bpolyester\b\<close> is
  \<open>RE_WORDS R [u ''polyester'']\<close>.\<close>

fun RE_WORDS :: "runtime \<Rightarrow> ustr list \<Rightarrow> unit matcher" where
  "RE_WORDS R [] prev s = None"
| "RE_WORDS R (p # ps) prev s =
     (case word_lit R p prev s of
        Some r \<Rightarrow> Some ((), r)
      | None \<Rightarrow> RE_WORDS R ps prev s)"

text \<open>\<^verbatim>\<open>dims.get(k)\<close>, with the empty string for \<^verbatim>\<open>None\<close> (both are false in a
  condition), and \<^verbatim>\<open>dims[k]\<close> for a key that is there.\<close>

definition dget :: "dims \<Rightarrow> string \<Rightarrow> ustr" where
  "dget d k = (case d k of None \<Rightarrow> [] | Some v \<Rightarrow> v)"

text \<open>The bullets before deduplication.\<close>

definition bullets :: "runtime \<Rightarrow> ustr \<Rightarrow> dims \<Rightarrow> ustr list" where
  "bullets R clean_text d =
    (if dget d ''width_in'' \<noteq> [] \<and> dget d ''length_in'' \<noteq> []
     then
       (let inch = dget d ''width_in'' @ [34, 32, 215, 32] @ dget d ''length_in'' @ [34] in
        if dget d ''width_cm'' \<noteq> [] \<and> dget d ''length_cm'' \<noteq> []
        then
          (let cm = dget d ''width_cm'' @ [32, 215, 32] @ dget d ''length_cm'' @ u '' cm''
           in [u ''Size: '' @ inch @ u '' ('' @ cm @ u '')''])
        else [u ''Size: '' @ inch])
     else if dget d ''width_cm'' \<noteq> [] \<and> dget d ''length_cm'' \<noteq> []
     then [u ''Size: '' @ dget d ''width_cm'' @ [32, 215, 32] @ dget d ''length_cm'' @ u '' cm'']
     else [])
    @ (if dget d ''thickness_in'' \<noteq> []
       then [u ''Thickness: '' @ dget d ''thickness_in'' @ [34] @ u '' (low profile)'']
       else [])
    @ (if re_search (RE_SLIP R) clean_text \<noteq> None then [u ''Backing: Anti-slip rubber'']
       else [])
    @ (if re_search (RE_WORDS R [u ''polyester'']) clean_text \<noteq> None
       then [u ''Surface: Non-woven polyester''] else [])
    @ (if re_search (RE_WORDS R [u ''machine washable'', u ''washable'']) clean_text \<noteq> None
       then [u ''Care: Machine washable''] else [])
    @ (if re_search (RE_WORDS R [u ''hardwood'', u ''wood floor'']) clean_text \<noteq> None
       then [u ''Floor Safety: Suitable for hardwood''] else [])"

text \<open>The deduplication loop: \<open>seen\<close> is the set of the bullets met, \<open>dedup\<close> the
  list built so far.\<close>

fun dedup_loop :: "ustr list \<Rightarrow> ustr set \<Rightarrow> ustr list \<Rightarrow> ustr list" where
  "dedup_loop [] seen dedup = dedup"
| "dedup_loop (b # bs) seen dedup =
     (if b \<notin> seen then dedup_loop bs (insert b seen) (dedup @ [b])
      else dedup_loop bs seen dedup)"

definition synthesize_bullets :: "runtime \<Rightarrow> ustr \<Rightarrow> dims \<Rightarrow> ustr list" where
  "synthesize_bullets R clean_text d = dedup_loop (bullets R clean_text d) {} []"

section \<open>Repeated words, the title and the pipeline\<close>

text \<open>The backreference \<^verbatim>\<open>\1\<close> under \<^verbatim>\<open>re.I\<close>: the text repeats the group \<open>w\<close>,
  character by character up to lower case.\<close>

fun backref :: "runtime \<Rightarrow> ustr \<Rightarrow> ustr \<Rightarrow> ustr option" where
  "backref R [] s = Some s"
| "backref R (a # w) [] = None"
| "backref R (a # w) (c # s) = (if lower R c = lower R a then backref R w s else None)"

text \<open>One round of \<^verbatim>\<open>(?:\s+\1\b)\<close>: the rest after it.\<close>

definition dup_round :: "runtime \<Rightarrow> ustr \<Rightarrow> ustr \<Rightarrow> ustr option" where
  "dup_round R w s =
    (if takeWhile isspace s = [] then None
     else (case backref R w (skip_ws s) of
             None \<Rightarrow> None
           | Some r \<Rightarrow> if wordb R (last_before s r) r then Some r else None))"

text \<open>The greedy \<^verbatim>\<open>(?:\s+\1\b)*\<close> after a first round: the rest after the last
  round that matches. A round takes whitespace, so its rest is shorter than its text
  (\<open>dup_round_length\<close> below) and the test on the lengths always succeeds.\<close>

function dup_rounds :: "runtime \<Rightarrow> ustr \<Rightarrow> ustr \<Rightarrow> ustr" where
  "dup_rounds R w s =
     (case dup_round R w s of
        None \<Rightarrow> s
      | Some r \<Rightarrow> if length r < length s then dup_rounds R w r else r)"
  by pat_completeness auto
termination
  by (relation "measure (\<lambda>(R, w, s). length s)") auto

text \<open>
  \<^verbatim>\<open>\b(\w+)(?:\s+\1\b)+\<close> under \<^verbatim>\<open>re.I\<close>; the group returned is group 1. After a
  shorter \<^verbatim>\<open>\w+\<close> comes a word character, where \<^verbatim>\<open>\s+\<close> needs whitespace, so
  only the whole word leads to a match.
\<close>

definition RE_DUP :: "runtime \<Rightarrow> ustr matcher" where
  "RE_DUP R prev s =
    (if wordb R prev s \<and> takeWhile (isword R) s \<noteq> []
     then (case dup_round R (takeWhile (isword R) s) (dropWhile (isword R) s) of
             None \<Rightarrow> None
           | Some r \<Rightarrow> Some (takeWhile (isword R) s, dup_rounds R (takeWhile (isword R) s) r))
     else None)"

definition fallback_title :: ustr where
  "fallback_title = u ''Doormat, Low-Profile, Anti-Slip''"

definition clean_title :: "runtime \<Rightarrow> ustr option \<Rightarrow> ustr" where
  "clean_title R t0 = (case t0 of
     None \<Rightarrow> fallback_title
   | Some t \<Rightarrow>
       if t = [] then fallback_title
       else
         (let t = strip_controls R (normalize_delims t);
              t = re_sub (RE_DUP R) (\<lambda>w. w) t
          in sentenceize R t))"

text \<open>\<^verbatim>\<open>\s*[\u2605\u2606]+\<close>, \<^verbatim>\<open>\s*,\s*\.\<close> and \<^verbatim>\<open>\s*,\s*,\<close>\<close>

definition RE_STARS :: "unit matcher" where
  "RE_STARS prev s =
    (if takeWhile (\<lambda>c. c = 9733 \<or> c = 9734) (skip_ws s) \<noteq> []
     then Some ((), dropWhile (\<lambda>c. c = 9733 \<or> c = 9734) (skip_ws s)) else None)"

definition RE_COMMA_THEN :: "nat \<Rightarrow> unit matcher" where
  "RE_COMMA_THEN d prev s = (case skip_ws s of
     [] \<Rightarrow> None
   | c # r \<Rightarrow>
       if c = 44
       then (case skip_ws r of
               [] \<Rightarrow> None
             | c' # r' \<Rightarrow> if c' = d then Some ((), r') else None)
       else None)"

text \<open>
  \<^verbatim>\<open>\s*(?:[^\w\s]|_){2,}\s*$\<close>: whitespace, two or more characters that are
  punctuation or underscores, whitespace, and the end of the text. The greedy
  \<^verbatim>\<open>\s*\<close> takes a final line feed too, so the match always reaches the end.
\<close>

definition ispunct :: "runtime \<Rightarrow> nat \<Rightarrow> bool" where
  "ispunct R c = ((\<not> isword R c \<and> \<not> isspace c) \<or> c = 95)"

definition RE_TRAIL_PUNCT :: "runtime \<Rightarrow> unit matcher" where
  "RE_TRAIL_PUNCT R prev s =
    (if 2 \<le> length (takeWhile (ispunct R) (skip_ws s))
        \<and> skip_ws (dropWhile (ispunct R) (skip_ws s)) = []
     then Some ((), []) else None)"

text \<open>The dictionary that \<^verbatim>\<open>normalize_listing\<close> returns.\<close>

record listing =
  title :: ustr
  description :: ustr
  creative :: "ustr option"
  features :: "ustr list"
  dimensions :: dims

text \<open>The description before the bullets are appended, with the dimensions.\<close>

definition clean_description :: "runtime \<Rightarrow> ustr \<Rightarrow> ustr \<times> dims" where
  "clean_description R raw_description =
    (let s = raw_description;
         s = drop_boiler R s;
         s = normalize_delims s;
         s = strip_controls R s;
         (s, dims) = normalize_dimensions R s;
         s = re_sub (RE_DUP R) (\<lambda>w. w) s;
         s = re_sub RE_STARS (\<lambda>_. [32]) s;
         s = re_sub (RE_COMMA_THEN 46) (\<lambda>_. [46]) s;
         s = re_sub (RE_COMMA_THEN 44) (\<lambda>_. u '', '') s
     in (sentenceize R s, dims))"

text \<open>The creative blurb; a missing one is the empty string.\<close>

definition clean_creative :: "runtime \<Rightarrow> ustr option \<Rightarrow> ustr" where
  "clean_creative R raw_creative =
    (let creative = strip (case raw_creative of None \<Rightarrow> [] | Some c \<Rightarrow> c);
         creative = strip_controls R creative;
         creative = re_sub (RE_TRAIL_PUNCT R) (\<lambda>_. []) creative
     in sentenceize R creative)"

definition normalize_listing :: "runtime \<Rightarrow> ustr option \<Rightarrow> ustr \<Rightarrow> ustr option \<Rightarrow> listing" where
  "normalize_listing R title0 raw_description raw_creative =
    (let (clean_desc, dims) = clean_description R raw_description;
         features = synthesize_bullets R clean_desc dims;
         creative = clean_creative R raw_creative;
         nice_title = clean_title R title0;
         clean_desc =
           (if features \<noteq> []
            then rstrip (\<lambda>c. c = 46) clean_desc @ u ''. ''
                 @ join [32] (map (\<lambda>b. [8226, 32] @ b @ [46]) features)
            else clean_desc)
     in \<lparr>title = nice_title,
         description = clean_desc,
         creative = (if creative = [] then None else Some creative),
         features = features,
         dimensions = dims\<rparr>)"

section \<open>The vocabulary of the properties\<close>

text \<open>A runtime whose tables are empty beyond ASCII: no digit and no letter there, and
  no entity decoded. The closed examples below are evaluated in it; their inputs are
  ASCII, where every runtime agrees with it.\<close>

definition ascii_runtime :: runtime where
  "ascii_runtime = \<lparr>is_decimal = (\<lambda>_. False), is_alnum = (\<lambda>_. False), to_lower = (\<lambda>c. c),
     to_upper = (\<lambda>c. [c]), charref_sub = (\<lambda>s. s)\<rparr>"

text \<open>The rule a bullet comes from, in the order of the rules: Size, Thickness, Backing,
  Surface, Care, Floor Safety; 6 for a string that no rule emits.\<close>

definition rule_rank :: "ustr \<Rightarrow> nat" where
  "rule_rank b =
    (if take 6 b = u ''Size: '' then 0
     else if take 11 b = u ''Thickness: '' then 1
     else if b = u ''Backing: Anti-slip rubber'' then 2
     else if b = u ''Surface: Non-woven polyester'' then 3
     else if b = u ''Care: Machine washable'' then 4
     else if b = u ''Floor Safety: Suitable for hardwood'' then 5
     else 6)"

text \<open>The specification's words for the step before the bullets: one trailing period
  is stripped, if there is one.\<close>

definition strip_one_period :: "ustr \<Rightarrow> ustr" where
  "strip_one_period s = (if s \<noteq> [] \<and> last s = 46 then butlast s else s)"

text \<open>The description of the specification's example of dimension extraction.\<close>

definition size_example :: ustr where
  "size_example = u ''Size 24\" x 36\" (60cm x 90cm), thickness 0.2 inch''"



text \<open>
  The characters that \<^verbatim>\<open>_normalize_delims\<close> rewrites: the pipe, the slash and the
  comma. A block is a run of whitespace and such delimiters with a delimiter in it; two
  texts are delimiter-equivalent when one is the other with some blocks replaced by
  other blocks.
\<close>

definition isdelim :: "nat \<Rightarrow> bool" where
  "isdelim c = (c = 124 \<or> c = 47 \<or> c = 44)"

definition block :: "ustr \<Rightarrow> bool" where
  "block B = ((\<forall>c\<in>set B. isspace c \<or> isdelim c) \<and> (\<exists>c\<in>set B. isdelim c))"

inductive eqv :: "ustr \<Rightarrow> ustr \<Rightarrow> bool" where
  Nil: "eqv [] []"
| Cons: "eqv s s' \<Longrightarrow> eqv (c # s) (c # s')"
| Block: "block B \<Longrightarrow> block B' \<Longrightarrow> eqv s s' \<Longrightarrow> eqv (B @ s) (B' @ s')"

text \<open>Two results of a matcher agree: both fail, or both match with the same groups and
  delimiter-equivalent rests.\<close>

definition orel :: "('g \<times> ustr) option \<Rightarrow> ('g \<times> ustr) option \<Rightarrow> bool" where
  "orel x y = (case x of
     None \<Rightarrow> y = None
   | Some (g, r) \<Rightarrow> (case y of None \<Rightarrow> False | Some (g', r') \<Rightarrow> g = g' \<and> eqv r r'))"

text \<open>What the Unicode tables say about whitespace: no whitespace character is a decimal
  digit, and none has another lower case.\<close>

definition whitespace_plain :: "runtime \<Rightarrow> bool" where
  "whitespace_plain R = (\<forall>c. isspace c \<longrightarrow> \<not> isdigit R c \<and> lower R c = c)"

section \<open>Evaluation\<close>

text \<open>The definitions that the evaluation of a concrete input unfolds, by stage.\<close>

lemmas chars = u_def isspace_def isdigit_def isword_def lower_def upper_def ci_def issep_def
  is_AZ09_def is_times_def ispunct_def bad_tok_def Let_def
lemmas scrub = strip_controls_def re_sub_def RE_CONTROL_def translate_def html_unescape_def
  RE_TRAIL_SEPS_def RE_MULTI_SPACE_def RE_WS_def strip_def rstrip_def skip_ws_def last_before_def
lemmas delims = normalize_delims_def RE_DELIM_def RE_COMMAS_def
lemmas boiler = drop_boiler_def DROP_def RE_LIT_def RE_RISK_def RE_SPAN_def
lemmas sents = sentenceize_def re_split_def RE_SENT_def
lemmas dimens = normalize_dimensions_def re_search_def re_sub1_def number_def opt_quote_def
  opt_lit_def RE_DIM_INCH_def RE_DIM_CM_def thick_value_def RE_THICK_def
lemmas feats = wordb_def opt_dash_def lit_dash_lit_def RE_SLIP_def word_lit_def dget_def
  bullets_def synthesize_bullets_def
lemmas dups = dup_round_def RE_DUP_def
lemmas pipeline = clean_title_def RE_STARS_def RE_COMMA_THEN_def RE_TRAIL_PUNCT_def
  clean_description_def clean_creative_def

section \<open>The rounds of a repeated word end\<close>

lemma backref_length: "backref R w s = Some r \<Longrightarrow> length r \<le> length s"
  by (induction R w s rule: backref.induct) (auto split: if_splits)

lemma dup_round_length: "dup_round R w s = Some r \<Longrightarrow> length r < length s"
proof -
  assume a: "dup_round R w s = Some r"
  then have ne: "takeWhile isspace s \<noteq> []"
    by (auto simp: dup_round_def split: if_splits)
  from a have "backref R w (skip_ws s) = Some r"
    by (auto simp: dup_round_def split: if_splits option.splits)
  then have "length r \<le> length (skip_ws s)"
    by (rule backref_length)
  moreover have "length (skip_ws s) < length s"
    using ne length_append [of "takeWhile isspace s" "dropWhile isspace s"]
    by (simp add: skip_ws_def del: length_append)
  ultimately show ?thesis by simp
qed

section \<open>The fields of the result\<close>

lemma title_normalize_listing: "title (normalize_listing R t d c) = clean_title R t"
  by (simp add: normalize_listing_def Let_def split: prod.splits)

lemma features_normalize_listing:
  "features (normalize_listing R t d c)
     = synthesize_bullets R (fst (clean_description R d)) (snd (clean_description R d))"
  by (simp add: normalize_listing_def Let_def split: prod.splits)

lemma dimensions_normalize_listing:
  "dimensions (normalize_listing R t d c) = snd (clean_description R d)"
  by (simp add: normalize_listing_def Let_def split: prod.splits)


lemma description_normalize_listing:
  "description (normalize_listing R t d c) =
     (if features (normalize_listing R t d c) \<noteq> []
      then rstrip (\<lambda>c. c = 46) (fst (clean_description R d)) @ u ''. ''
           @ join [32] (map (\<lambda>b. [8226, 32] @ b @ [46]) (features (normalize_listing R t d c)))
      else fst (clean_description R d))"
  by (simp add: normalize_listing_def Let_def split: prod.splits)

lemma dims_clean_description:
  "snd (clean_description R d)
     = snd (normalize_dimensions R (strip_controls R (normalize_delims (drop_boiler R d))))"
  by (simp add: clean_description_def Let_def split: prod.splits)

section \<open>The title fallback\<close>


section \<open>Widths and lengths come in pairs\<close>



section \<open>The feature list\<close>




lemma remdups_snoc: "remdups (ys @ [b]) = remdups (filter (\<lambda>x. x \<noteq> b) ys) @ [b]"
  by (induction ys) auto

lemma dedup_loop_keeps_first:
  "dedup_loop bs seen acc = acc @ rev (remdups (rev (filter (\<lambda>b. b \<notin> seen) bs)))"
proof (induction bs seen acc rule: dedup_loop.induct)
  case (1 seen acc)
  then show ?case by simp
next
  case (2 b bs seen acc)
  show ?case
  proof (cases "b \<in> seen")
    case True
    with 2 show ?thesis by simp
  next
    case False
    have "filter (\<lambda>x. x \<noteq> b) (rev (filter (\<lambda>b. b \<notin> seen) bs))
            = rev (filter (\<lambda>x. x \<notin> insert b seen) bs)"
      by (simp add: rev_filter [symmetric] conj_commute)
    with False 2 show ?thesis by (simp add: remdups_snoc)
  qed
qed

lemma synthesize_bullets_keeps_first:
  "synthesize_bullets R s d = rev (remdups (rev (bullets R s d)))"
  by (simp add: synthesize_bullets_def dedup_loop_keeps_first)

lemma rule_rank_simps:
  "rule_rank (u ''Size: '' @ x) = 0"
  "rule_rank (u ''Thickness: '' @ x) = 1"
  "rule_rank (u ''Backing: Anti-slip rubber'') = 2"
  "rule_rank (u ''Surface: Non-woven polyester'') = 3"
  "rule_rank (u ''Care: Machine washable'') = 4"
  "rule_rank (u ''Floor Safety: Suitable for hardwood'') = 5"
  by (simp_all add: rule_rank_def u_def)

lemma ranked_step:
  "(xs = [] \<or> (\<exists>x. xs = [x] \<and> rule_rank x = k)) \<Longrightarrow>
   sorted_wrt (<) (map rule_rank ys) \<and> list_all (\<lambda>b. j \<le> rule_rank b \<and> rule_rank b < 6) ys \<Longrightarrow>
   j = Suc k \<Longrightarrow> k < 6 \<Longrightarrow>
   sorted_wrt (<) (map rule_rank (xs @ ys))
   \<and> list_all (\<lambda>b. k \<le> rule_rank b \<and> rule_rank b < 6) (xs @ ys)"
  by (fastforce simp: list_all_iff Suc_le_eq)

lemma bullets_ranked:
  "sorted_wrt (<) (map rule_rank (bullets R s d)) \<and> list_all (\<lambda>b. rule_rank b < 6) (bullets R s d)"
proof -
  let ?a = "if dget d ''width_in'' \<noteq> [] \<and> dget d ''length_in'' \<noteq> []
     then
       (let inch = dget d ''width_in'' @ [34, 32, 215, 32] @ dget d ''length_in'' @ [34] in
        if dget d ''width_cm'' \<noteq> [] \<and> dget d ''length_cm'' \<noteq> []
        then
          (let cm = dget d ''width_cm'' @ [32, 215, 32] @ dget d ''length_cm'' @ u '' cm''
           in [u ''Size: '' @ inch @ u '' ('' @ cm @ u '')''])
        else [u ''Size: '' @ inch])
     else if dget d ''width_cm'' \<noteq> [] \<and> dget d ''length_cm'' \<noteq> []
     then [u ''Size: '' @ dget d ''width_cm'' @ [32, 215, 32] @ dget d ''length_cm'' @ u '' cm'']
     else []"
  let ?b = "if dget d ''thickness_in'' \<noteq> []
       then [u ''Thickness: '' @ dget d ''thickness_in'' @ [34] @ u '' (low profile)'']
       else []"
  let ?c = "if re_search (RE_SLIP R) s \<noteq> None then [u ''Backing: Anti-slip rubber''] else []"
  let ?d = "if re_search (RE_WORDS R [u ''polyester'']) s \<noteq> None
       then [u ''Surface: Non-woven polyester''] else []"
  let ?e = "if re_search (RE_WORDS R [u ''machine washable'', u ''washable'']) s \<noteq> None
       then [u ''Care: Machine washable''] else []"
  let ?f = "if re_search (RE_WORDS R [u ''hardwood'', u ''wood floor'']) s \<noteq> None
       then [u ''Floor Safety: Suitable for hardwood''] else []"
  have eq: "bullets R s d = ?a @ ?b @ ?c @ ?d @ ?e @ ?f @ []"
    unfolding bullets_def by simp
  have a: "?a = [] \<or> (\<exists>x. ?a = [x] \<and> rule_rank x = 0)"
    by (simp add: Let_def rule_rank_simps)
  have b: "?b = [] \<or> (\<exists>x. ?b = [x] \<and> rule_rank x = 1)"
    by (simp add: rule_rank_simps)
  have c: "?c = [] \<or> (\<exists>x. ?c = [x] \<and> rule_rank x = 2)"
    by (simp add: rule_rank_simps)
  have d: "?d = [] \<or> (\<exists>x. ?d = [x] \<and> rule_rank x = 3)"
    by (simp add: rule_rank_simps)
  have e: "?e = [] \<or> (\<exists>x. ?e = [x] \<and> rule_rank x = 4)"
    by (simp add: rule_rank_simps)
  have f: "?f = [] \<or> (\<exists>x. ?f = [x] \<and> rule_rank x = 5)"
    by (simp add: rule_rank_simps)
  have r6: "sorted_wrt (<) (map rule_rank [])
      \<and> list_all (\<lambda>b. 6 \<le> rule_rank b \<and> rule_rank b < 6) []"
    by simp
  have r5: "sorted_wrt (<) (map rule_rank (?f @ []))
      \<and> list_all (\<lambda>b. 5 \<le> rule_rank b \<and> rule_rank b < 6) (?f @ [])"
    by (rule ranked_step [OF f r6]) simp_all
  have r4: "sorted_wrt (<) (map rule_rank (?e @ ?f @ []))
      \<and> list_all (\<lambda>b. 4 \<le> rule_rank b \<and> rule_rank b < 6) (?e @ ?f @ [])"
    by (rule ranked_step [OF e r5]) simp_all
  have r3: "sorted_wrt (<) (map rule_rank (?d @ ?e @ ?f @ []))
      \<and> list_all (\<lambda>b. 3 \<le> rule_rank b \<and> rule_rank b < 6) (?d @ ?e @ ?f @ [])"
    by (rule ranked_step [OF d r4]) simp_all
  have r2: "sorted_wrt (<) (map rule_rank (?c @ ?d @ ?e @ ?f @ []))
      \<and> list_all (\<lambda>b. 2 \<le> rule_rank b \<and> rule_rank b < 6) (?c @ ?d @ ?e @ ?f @ [])"
    by (rule ranked_step [OF c r3]) simp_all
  have r1: "sorted_wrt (<) (map rule_rank (?b @ ?c @ ?d @ ?e @ ?f @ []))
      \<and> list_all (\<lambda>b. 1 \<le> rule_rank b \<and> rule_rank b < 6) (?b @ ?c @ ?d @ ?e @ ?f @ [])"
    by (rule ranked_step [OF b r2]) simp_all
  have r0: "sorted_wrt (<) (map rule_rank (?a @ ?b @ ?c @ ?d @ ?e @ ?f @ []))
      \<and> list_all (\<lambda>b. 0 \<le> rule_rank b \<and> rule_rank b < 6) (?a @ ?b @ ?c @ ?d @ ?e @ ?f @ [])"
    by (rule ranked_step [OF a r1]) simp_all
  from r0 have "sorted_wrt (<) (map rule_rank (bullets R s d))
      \<and> list_all (\<lambda>b. 0 \<le> rule_rank b \<and> rule_rank b < 6) (bullets R s d)"
    unfolding eq .
  then show ?thesis by (simp add: list_all_iff)
qed

lemma bullets_distinct: "distinct (bullets R s d)"
proof -
  have "distinct (map rule_rank (bullets R s d))"
    using bullets_ranked [of R s d] strict_sorted_iff [of "map rule_rank (bullets R s d)"]
    by blast
  then show ?thesis by (rule distinct_map [THEN iffD1, THEN conjunct1])
qed

lemma synthesize_bullets_eq: "synthesize_bullets R s d = bullets R s d"
  using bullets_distinct [of R s d]
  by (simp add: synthesize_bullets_keeps_first distinct_remdups_id)


section \<open>The creative blurb\<close>









section \<open>A blank title\<close>

text \<open>
  C2: the title returned is not always non-empty. The fallback is chosen before the
  title is cleaned, so a title of one space, which is not empty, is cleaned to the empty
  string and returned, whatever the other two inputs are.
\<close>

theorem blank_title_is_empty: "title (normalize_listing R (Some (u '' '')) d c) = []"
  by (simp add: title_normalize_listing chars scrub delims sents dups pipeline)


section \<open>The example of dimension extraction\<close>

lemma size_example_drop_boiler: "drop_boiler R size_example = size_example"
  by (simp add: size_example_def chars boiler re_sub_def skip_ws_def)

lemma size_example_normalize_delims: "normalize_delims size_example = size_example"
  by (simp add: size_example_def chars delims re_sub_def skip_ws_def)

lemma size_example_strip_controls: "strip_controls R size_example = size_example"
  by (simp add: size_example_def chars scrub)

lemma size_example_dims:
  "snd (normalize_dimensions R size_example)
     = [''width_in'' \<mapsto> u ''24'', ''length_in'' \<mapsto> u ''36'',
        ''width_cm'' \<mapsto> u ''60'', ''length_cm'' \<mapsto> u ''90'', ''thickness_in'' \<mapsto> u ''24'']"
  by (simp add: size_example_def chars dimens skip_ws_def)

lemma size_example_out:
  "fst (normalize_dimensions R size_example)
     = u ''Size 24\" thickness '' @ [215] @ u '' 36\"(60 '' @ [215]
       @ u '' 90 cm), thickness 0.2 inch''"
  by (simp add: size_example_def chars dimens skip_ws_def)

lemma bullets_size_inch_cm:
  "dget dm ''width_in'' \<noteq> [] \<Longrightarrow> dget dm ''length_in'' \<noteq> [] \<Longrightarrow>
   dget dm ''width_cm'' \<noteq> [] \<Longrightarrow> dget dm ''length_cm'' \<noteq> [] \<Longrightarrow>
   u ''Size: '' @ dget dm ''width_in'' @ [34, 32, 215, 32] @ dget dm ''length_in'' @ [34]
     @ u '' ('' @ dget dm ''width_cm'' @ [32, 215, 32] @ dget dm ''length_cm'' @ u '' cm)''
   \<in> set (bullets R s dm)"
  by (simp add: bullets_def Let_def u_def)

lemma bullets_thickness_in:
  "dget dm ''thickness_in'' \<noteq> [] \<Longrightarrow>
   u ''Thickness: '' @ dget dm ''thickness_in'' @ [34] @ u '' (low profile)''
   \<in> set (bullets R s dm)"
  by (simp add: bullets_def)

lemma bullets_thickness_only:
  "x \<in> set (bullets R s dm) \<Longrightarrow> take 11 x = u ''Thickness: '' \<Longrightarrow>
   x = u ''Thickness: '' @ dget dm ''thickness_in'' @ [34] @ u '' (low profile)''"
  by (auto simp: bullets_def Let_def u_def split: if_splits)

text \<open>
  C1: for the description \<^verbatim>\<open>Size 24" x 36" (60cm x 90cm), thickness 0.2 inch\<close> the
  dimensions returned are not the ones of the claim. The inch pair and the centimetre pair
  are found, but the thickness pattern, whose prefix \<^verbatim>\<open>thickness\<close> is optional, is
  searched in the text that the inch pair was rewritten in and matches the width
  \<^verbatim>\<open>24"\<close> first: \<^verbatim>\<open>thickness_in\<close> is \<^verbatim>\<open>24\<close>, the bullet
  \<^verbatim>\<open>Thickness: 24" (low profile)\<close> is among the features and the bullet
  \<^verbatim>\<open>Thickness: 0.2" (low profile)\<close> is not. The Size bullet is the one of the claim.
\<close>

theorem size_example_thickness_is_width:
  "dimensions (normalize_listing R t size_example c)
     = [''width_in'' \<mapsto> u ''24'', ''length_in'' \<mapsto> u ''36'',
        ''width_cm'' \<mapsto> u ''60'', ''length_cm'' \<mapsto> u ''90'', ''thickness_in'' \<mapsto> u ''24'']
   \<and> u ''Size: 24\" '' @ [215] @ u '' 36\" (60 '' @ [215] @ u '' 90 cm)''
       \<in> set (features (normalize_listing R t size_example c))
   \<and> u ''Thickness: 24\" (low profile)'' \<in> set (features (normalize_listing R t size_example c))
   \<and> u ''Thickness: 0.2\" (low profile)'' \<notin> set (features (normalize_listing R t size_example c))"
proof -
  let ?dm = "snd (clean_description R size_example)"
  let ?s = "fst (clean_description R size_example)"
  have dm: "?dm = [''width_in'' \<mapsto> u ''24'', ''length_in'' \<mapsto> u ''36'',
        ''width_cm'' \<mapsto> u ''60'', ''length_cm'' \<mapsto> u ''90'', ''thickness_in'' \<mapsto> u ''24'']"
    by (simp only: dims_clean_description size_example_drop_boiler
        size_example_normalize_delims size_example_strip_controls size_example_dims)
  have g: "dget ?dm ''width_in'' = u ''24''" "dget ?dm ''length_in'' = u ''36''"
    "dget ?dm ''width_cm'' = u ''60''" "dget ?dm ''length_cm'' = u ''90''"
    "dget ?dm ''thickness_in'' = u ''24''"
    unfolding dm by (simp_all add: dget_def)
  have f: "features (normalize_listing R t size_example c) = bullets R ?s ?dm"
    by (simp only: features_normalize_listing synthesize_bullets_eq)
  have size: "u ''Size: 24\" '' @ [215] @ u '' 36\" (60 '' @ [215] @ u '' 90 cm)''
      \<in> set (bullets R ?s ?dm)"
    using bullets_size_inch_cm [of ?dm R ?s] unfolding g by (simp add: u_def)
  have thick: "u ''Thickness: 24\" (low profile)'' \<in> set (bullets R ?s ?dm)"
    using bullets_thickness_in [of ?dm R ?s] unfolding g by (simp add: u_def)
  have "u ''Thickness: 0.2\" (low profile)'' \<notin> set (bullets R ?s ?dm)"
  proof
    assume "u ''Thickness: 0.2\" (low profile)'' \<in> set (bullets R ?s ?dm)"
    from bullets_thickness_only [OF this] show False
      unfolding g by (simp add: u_def)
  qed
  with size thick show ?thesis
    unfolding f by (simp add: dimensions_normalize_listing dm)
qed

section \<open>The description and its bullets\<close>

lemma washable_clean_description:
  "clean_description R (u ''washable...'') = (u ''Washable...'', Map.empty)"
proof -
  have "drop_boiler R (u ''washable...'') = u ''washable...''"
    by (simp add: chars boiler re_sub_def)
  moreover have "normalize_delims (u ''washable...'') = u ''washable...''"
    by (simp add: chars delims re_sub_def skip_ws_def)
  moreover have "strip_controls R (u ''washable...'') = u ''washable...''"
    by (simp add: chars scrub)
  moreover have "normalize_dimensions R (u ''washable...'') = (u ''washable...'', Map.empty)"
    by (simp add: chars dimens)
  moreover have "re_sub (RE_DUP R) (\<lambda>w. w) (u ''washable...'') = u ''washable...''"
    by (simp add: chars dups re_sub_def wordb_def skip_ws_def)
  moreover have "re_sub RE_STARS (\<lambda>_. [32]) (u ''washable...'') = u ''washable...''"
    "re_sub (RE_COMMA_THEN 46) (\<lambda>_. [46]) (u ''washable...'') = u ''washable...''"
    "re_sub (RE_COMMA_THEN 44) (\<lambda>_. u '', '') (u ''washable...'') = u ''washable...''"
    by (simp_all add: chars pipeline re_sub_def skip_ws_def)
  moreover have "sentenceize R (u ''washable...'') = u ''Washable...''"
    by (simp add: chars sents strip_def rstrip_def skip_ws_def)
  ultimately show ?thesis by (simp add: clean_description_def)
qed

lemma washable_features:
  "synthesize_bullets R (u ''Washable...'') Map.empty = [u ''Care: Machine washable'']"
  by (simp add: chars feats re_search_def last_before_def)

lemma washable_listing:
  "features (normalize_listing R t (u ''washable...'') c) = [u ''Care: Machine washable'']"
  "description (normalize_listing R t (u ''washable...'') c)
     = u ''Washable. '' @ [8226] @ u '' Care: Machine washable.''"
  by (simp_all add: description_normalize_listing features_normalize_listing
      washable_clean_description washable_features)
    (simp_all add: u_def rstrip_def)

lemma rstrip_periods:
  "\<exists>n. s = rstrip (\<lambda>c. c = 46) s @ replicate n 46
     \<and> (rstrip (\<lambda>c. c = 46) s = [] \<or> last (rstrip (\<lambda>c. c = 46) s) \<noteq> 46)"
proof -
  let ?P = "\<lambda>c::nat. c = 46"
  let ?Y = "rev (takeWhile ?P (rev s))"
  have "rev s = takeWhile ?P (rev s) @ dropWhile ?P (rev s)" by simp
  then have "rev (rev s) = rev (takeWhile ?P (rev s) @ dropWhile ?P (rev s))"
    by (rule arg_cong)
  then have a: "s = rstrip ?P s @ ?Y"
    by (simp only: rev_rev_ident rev_append rstrip_def)
  have b: "replicate (length ?Y) 46 = ?Y"
    by (rule replicate_length_same) (auto dest: set_takeWhileD)
  from a b have "s = rstrip ?P s @ replicate (length ?Y) 46"
    by metis
  moreover have "rstrip ?P s = [] \<or> last (rstrip ?P s) \<noteq> 46"
    using hd_dropWhile [of ?P "rev s"] by (auto simp: rstrip_def last_rev)
  ultimately show ?thesis by blast
qed

text \<open>
  C4, as stated, fails: with a description that ends in three periods, the final
  description does not start with the sentence-built description less one period.
\<close>

theorem one_period_counterexample:
  "features (normalize_listing ascii_runtime None (u ''washable...'') None) \<noteq> []
   \<and> fst (clean_description ascii_runtime (u ''washable...'')) = u ''Washable...''
   \<and> description (normalize_listing ascii_runtime None (u ''washable...'') None)
       = u ''Washable. '' @ [8226] @ u '' Care: Machine washable.''
   \<and> take (length (strip_one_period (fst (clean_description ascii_runtime (u ''washable...'')))))
         (description (normalize_listing ascii_runtime None (u ''washable...'') None))
       \<noteq> strip_one_period (fst (clean_description ascii_runtime (u ''washable...'')))"
  by (simp add: washable_listing washable_clean_description)
    (simp add: u_def strip_one_period_def)

text \<open>
  C4, amended: whenever the feature list is not empty, the final description is the
  sentence-built description with all its trailing periods stripped, followed by a period
  and a space and then by one \<^verbatim>\<open>\<bullet> <feature>.\<close> per feature, joined by spaces.
\<close>

theorem description_with_bullets:
  assumes "features (normalize_listing R t d c) \<noteq> []"
  shows "\<exists>core n.
           fst (clean_description R d) = core @ replicate n 46
         \<and> (core = [] \<or> last core \<noteq> 46)
         \<and> description (normalize_listing R t d c)
             = core @ u ''. ''
               @ join [32] (map (\<lambda>b. [8226, 32] @ b @ [46]) (features (normalize_listing R t d c)))"
proof -
  obtain n where "fst (clean_description R d)
        = rstrip (\<lambda>c. c = 46) (fst (clean_description R d)) @ replicate n 46"
    and "rstrip (\<lambda>c. c = 46) (fst (clean_description R d)) = []
        \<or> last (rstrip (\<lambda>c. c = 46) (fst (clean_description R d))) \<noteq> 46"
    using rstrip_periods [of "fst (clean_description R d)"] by blast
  moreover have "description (normalize_listing R t d c)
      = rstrip (\<lambda>c. c = 46) (fst (clean_description R d)) @ u ''. ''
        @ join [32] (map (\<lambda>b. [8226, 32] @ b @ [46]) (features (normalize_listing R t d c)))"
    using assms by (simp add: description_normalize_listing)
  ultimately show ?thesis by blast
qed

theorem description_with_bullets_witness:
  "features (normalize_listing ascii_runtime None (u ''washable...'') None) \<noteq> []
   \<and> (\<exists>core n.
         u ''Washable...'' = core @ replicate n 46
       \<and> (core = [] \<or> last core \<noteq> 46)
       \<and> u ''Washable. '' @ [8226] @ u '' Care: Machine washable.''
           = core @ u ''. '' @ join [32] (map (\<lambda>b. [8226, 32] @ b @ [46])
               [u ''Care: Machine washable'']))"
  using description_with_bullets [of ascii_runtime None "u ''washable...''" None]
  by (simp add: washable_listing washable_clean_description)


section \<open>Scrubbing twice\<close>






































section \<open>Delimiters and dimensions\<close>

lemma isdelim_not_space: "isdelim c \<Longrightarrow> \<not> isspace c"
  by (auto simp: isdelim_def isspace_def)

lemma isdelim_lower: "isdelim c \<Longrightarrow> lower R c = c \<and> \<not> isdigit R c"
  by (auto simp: isdelim_def lower_def isdigit_def)

lemma isspace_not:
  "isspace c \<Longrightarrow>
     c \<noteq> 34 \<and> c \<noteq> 40 \<and> c \<noteq> 41 \<and> c \<noteq> 46 \<and> c \<noteq> 120 \<and> c \<noteq> 215 \<and> c \<noteq> 305 \<and> c \<noteq> 383
     \<and> c \<noteq> 8221 \<and> \<not> (97 \<le> c \<and> c \<le> 122) \<and> \<not> (65 \<le> c \<and> c \<le> 90)"
  unfolding isspace_def by (elim disjE conjE) simp_all

lemma isdelim_not:
  "isdelim c \<Longrightarrow>
     c \<noteq> 34 \<and> c \<noteq> 40 \<and> c \<noteq> 41 \<and> c \<noteq> 46 \<and> c \<noteq> 120 \<and> c \<noteq> 215 \<and> c \<noteq> 305 \<and> c \<noteq> 383
     \<and> c \<noteq> 8221 \<and> \<not> (97 \<le> c \<and> c \<le> 122) \<and> \<not> (65 \<le> c \<and> c \<le> 90)"
  unfolding isdelim_def by (elim disjE) simp_all

lemma sep_facts:
  assumes "whitespace_plain R" and "isspace c \<or> isdelim c"
  shows "lower R c = c" and "\<not> isdigit R c"
    and "c \<noteq> 34 \<and> c \<noteq> 40 \<and> c \<noteq> 41 \<and> c \<noteq> 46 \<and> c \<noteq> 120 \<and> c \<noteq> 215 \<and> c \<noteq> 305 \<and> c \<noteq> 383
     \<and> c \<noteq> 8221 \<and> \<not> (97 \<le> c \<and> c \<le> 122) \<and> \<not> (65 \<le> c \<and> c \<le> 90)"
  using assms isdelim_lower [of c R] isspace_not [of c] isdelim_not [of c]
  by (auto simp: whitespace_plain_def)

lemma eqv_refl: "eqv s s"
  by (induction s) (auto intro: eqv.intros)

lemma eqv_prepend: "eqv r r' \<Longrightarrow> eqv (K @ r) (K @ r')"
  by (induction K) (auto intro: eqv.intros)

lemma block_hd: "block B \<Longrightarrow> \<exists>h t. B = h # t \<and> (isspace h \<or> isdelim h)"
  by (cases B) (auto simp: block_def)

text \<open>The ways two delimiter-equivalent texts start.\<close>

lemma eqv_heads:
  assumes "eqv X X'"
  shows "(X = [] \<and> X' = [])
       \<or> (\<exists>c t t'. X = c # t \<and> X' = c # t' \<and> eqv t t')
       \<or> (\<exists>h t h' t'. X = h # t \<and> X' = h' # t'
             \<and> (isspace h \<or> isdelim h) \<and> (isspace h' \<or> isdelim h'))"
  using assms
proof (cases rule: eqv.cases)
  case Nil
  then show ?thesis by simp
next
  case (Cons s s' c)
  then show ?thesis by simp
next
  case (Block B B' s s')
  from block_hd [OF Block(3)] block_hd [OF Block(4)] Block(1,2)
  show ?thesis by auto
qed

lemma block_dropWhile:
  assumes "block B" and "\<And>c. isdelim c \<Longrightarrow> \<not> Q c"
  shows "block (dropWhile Q B)" and "dropWhile Q (B @ s) = dropWhile Q B @ s"
proof -
  from assms(1) obtain d where d: "d \<in> set B" "isdelim d" by (auto simp: block_def)
  with assms(2) have nq: "\<not> Q d" by simp
  have "d \<in> set (dropWhile Q B)"
  proof -
    have "d \<in> set (takeWhile Q B) \<or> d \<in> set (dropWhile Q B)"
      using d(1) takeWhile_dropWhile_id [of Q B] by (metis Un_iff set_append)
    with nq show ?thesis by (auto dest: set_takeWhileD)
  qed
  with d(2) assms(1) show "block (dropWhile Q B)"
    by (auto simp: block_def dest: set_dropWhileD)
  from d(1) nq show "dropWhile Q (B @ s) = dropWhile Q B @ s"
    by (auto intro: dropWhile_append1)
qed

lemma eqv_dropWhile:
  assumes "eqv s s'" and "\<And>c. isdelim c \<Longrightarrow> \<not> Q c"
  shows "eqv (dropWhile Q s) (dropWhile Q s')"
  using assms(1)
proof (induction rule: eqv.induct)
  case Nil
  then show ?case by (simp add: eqv.Nil)
next
  case (Cons s s' c)
  then show ?case by (auto intro: eqv.Cons)
next
  case (Block B B' s s')
  from Block(1,2) assms(2) have "block (dropWhile Q B)" "block (dropWhile Q B')"
    "dropWhile Q (B @ s) = dropWhile Q B @ s" "dropWhile Q (B' @ s') = dropWhile Q B' @ s'"
    by (auto intro: block_dropWhile)
  with Block(3) show ?case by (auto intro: eqv.Block)
qed

lemma eqv_skip_ws: "eqv s s' \<Longrightarrow> eqv (skip_ws s) (skip_ws s')"
  unfolding skip_ws_def by (rule eqv_dropWhile) (auto dest: isdelim_not_space)

lemma eqv_takeWhile:
  assumes "eqv s s'" and "\<And>c. isspace c \<or> isdelim c \<Longrightarrow> \<not> Q c"
  shows "takeWhile Q s = takeWhile Q s'"
  using assms(1)
proof (induction rule: eqv.induct)
  case Nil
  then show ?case by simp
next
  case (Cons s s' c)
  then show ?case by simp
next
  case (Block B B' s s')
  from block_hd [OF Block(1)] block_hd [OF Block(2)] assms(2)
  show ?case by auto
qed


lemma orel_None [simp]: "orel None None"
  by (simp add: orel_def)

lemma orel_Some [simp]: "orel (Some (g, r)) (Some (g', r')) = (g = g' \<and> eqv r r')"
  by (simp add: orel_def)

lemma orel_cases:
  "orel x y \<Longrightarrow> (x = None \<and> y = None) \<or> (\<exists>g r r'. x = Some (g, r) \<and> y = Some (g, r') \<and> eqv r r')"
  by (auto simp: orel_def split: option.splits)

lemma number_eqv:
  assumes R: "whitespace_plain R" and e: "eqv s s'"
  shows "orel (number R s) (number R s')"
proof -
  have tk: "takeWhile (isdigit R) x = takeWhile (isdigit R) x'" if "eqv x x'" for x x'
    using that by (rule eqv_takeWhile) (use R in \<open>auto dest: sep_facts(2)\<close>)
  have dr: "eqv (dropWhile (isdigit R) x) (dropWhile (isdigit R) x')" if "eqv x x'" for x x'
    using that by (rule eqv_dropWhile) (use R in \<open>auto dest: isdelim_lower\<close>)
  from eqv_heads [OF dr [OF e]]
  consider (nil) "dropWhile (isdigit R) s = []" "dropWhile (isdigit R) s' = []"
    | (same) c t t' where "dropWhile (isdigit R) s = c # t" "dropWhile (isdigit R) s' = c # t'"
        "eqv t t'"
    | (sep) h t h' t' where "dropWhile (isdigit R) s = h # t" "dropWhile (isdigit R) s' = h' # t'"
        "isspace h \<or> isdelim h" "isspace h' \<or> isdelim h'"
    by blast
  then show ?thesis
  proof cases
    case nil
    with tk [OF e] show ?thesis
      by (simp add: number_def Let_def eqv.Nil del: dropWhile_eq_Nil_conv)
  next
    case same
    with tk [OF e] tk [OF same(3)] dr [OF same(3)] show ?thesis
      by (simp add: number_def Let_def eqv.Cons)
  next
    case sep
    from sep(3) sep(4) have "h \<noteq> 46" "h' \<noteq> 46"
      using isspace_not [of h] isdelim_not [of h] isspace_not [of h'] isdelim_not [of h']
      by blast+
    with sep(1,2) tk [OF e] dr [OF e] show ?thesis
      by (simp add: number_def Let_def)
  qed
qed

lemma opt_quote_eqv:
  assumes e: "eqv s s'"
  shows "eqv (opt_quote s) (opt_quote s')"
proof -
  from eqv_heads [OF e]
  consider (nil) "s = []" "s' = []"
    | (same) c t t' where "s = c # t" "s' = c # t'" "eqv t t'"
    | (sep) h t h' t' where "s = h # t" "s' = h' # t'"
        "isspace h \<or> isdelim h" "isspace h' \<or> isdelim h'"
    by blast
  then show ?thesis
  proof cases
    case nil
    then show ?thesis by (simp add: opt_quote_def eqv.Nil)
  next
    case same
    then show ?thesis by (simp add: opt_quote_def eqv.Cons)
  next
    case sep
    from sep(3) sep(4) have "h \<noteq> 34 \<and> h \<noteq> 8221" "h' \<noteq> 34 \<and> h' \<noteq> 8221"
      using isspace_not [of h] isdelim_not [of h] isspace_not [of h'] isdelim_not [of h']
      by blast+
    with sep(1,2) e show ?thesis by (simp add: opt_quote_def)
  qed
qed

lemma ci_sep:
  assumes R: "whitespace_plain R" and h: "isspace h \<or> isdelim h"
    and a: "a = 34 \<or> a = 40 \<or> a = 41 \<or> (97 \<le> a \<and> a \<le> 122)"
  shows "\<not> ci R a h"
proof -
  have l: "lower R h = h" using R h by (rule sep_facts(1))
  have n: "h \<noteq> 34 \<and> h \<noteq> 40 \<and> h \<noteq> 41 \<and> h \<noteq> 305 \<and> h \<noteq> 383 \<and> \<not> (97 \<le> h \<and> h \<le> 122)"
    using sep_facts(3) [OF R h] by blast
  show ?thesis
  proof (cases "97 \<le> a \<and> a \<le> 122")
    case True
    then have "lower R a = a" by (simp add: lower_def)
    with True l n show ?thesis by (auto simp: ci_def)
  next
    case False
    with a n show ?thesis by (auto simp: ci_def)
  qed
qed

lemma lit_ci_eqv:
  assumes R: "whitespace_plain R"
  shows "\<forall>a\<in>set p. a = 34 \<or> a = 40 \<or> a = 41 \<or> (97 \<le> a \<and> a \<le> 122) \<Longrightarrow> eqv s s' \<Longrightarrow>
         rel_option eqv (lit_ci R p s) (lit_ci R p s')"
proof (induction p arbitrary: s s')
  case Nil
  then show ?case by simp
next
  case (Cons a p)
  from eqv_heads [OF Cons.prems(2)]
  consider (nil) "s = []" "s' = []"
    | (same) c t t' where "s = c # t" "s' = c # t'" "eqv t t'"
    | (sep) h t h' t' where "s = h # t" "s' = h' # t'"
        "isspace h \<or> isdelim h" "isspace h' \<or> isdelim h'"
    by blast
  then show ?case
  proof cases
    case nil
    then show ?thesis by simp
  next
    case same
    with Cons show ?thesis by simp
  next
    case sep
    from Cons.prems(1) have a: "a = 34 \<or> a = 40 \<or> a = 41 \<or> (97 \<le> a \<and> a \<le> 122)" by simp
    from ci_sep [OF R sep(3) a] ci_sep [OF R sep(4) a] sep(1,2)
    show ?thesis by simp
  qed
qed

lemma opt_lit_eqv:
  assumes "whitespace_plain R" and "\<forall>a\<in>set p. a = 34 \<or> a = 40 \<or> a = 41 \<or> (97 \<le> a \<and> a \<le> 122)"
    and "eqv s s'"
  shows "eqv (opt_lit R p s) (opt_lit R p s')"
  using lit_ci_eqv [OF assms] assms(3)
  by (auto simp: opt_lit_def option_rel_Some1 option_rel_Some2 split: option.splits)

lemma is_times_sep:
  assumes R: "whitespace_plain R" and h: "isspace h \<or> isdelim h"
  shows "\<not> is_times R h"
  using sep_facts(1) [OF R h] sep_facts(3) [OF R h] by (simp add: is_times_def)

lemma pat_chars:
  "\<forall>a\<in>set (u ''(w)''). a = 34 \<or> a = 40 \<or> a = 41 \<or> (97 \<le> a \<and> a \<le> 122)"
  "\<forall>a\<in>set (u ''(l)''). a = 34 \<or> a = 40 \<or> a = 41 \<or> (97 \<le> a \<and> a \<le> 122)"
  "\<forall>a\<in>set (u ''cm''). a = 34 \<or> a = 40 \<or> a = 41 \<or> (97 \<le> a \<and> a \<le> 122)"
  "\<forall>a\<in>set (u ''thickness''). a = 34 \<or> a = 40 \<or> a = 41 \<or> (97 \<le> a \<and> a \<le> 122)"
  "\<forall>a\<in>set (u ''inch''). a = 34 \<or> a = 40 \<or> a = 41 \<or> (97 \<le> a \<and> a \<le> 122)"
  "\<forall>a\<in>set (u ''in''). a = 34 \<or> a = 40 \<or> a = 41 \<or> (97 \<le> a \<and> a \<le> 122)"
  "\<forall>a\<in>set [34::nat]. a = 34 \<or> a = 40 \<or> a = 41 \<or> (97 \<le> a \<and> a \<le> 122)"
  by (simp_all add: u_def)


lemma rel_option_eqv_cases:
  "rel_option eqv x y \<Longrightarrow>
   (x = None \<and> y = None) \<or> (\<exists>r r'. x = Some r \<and> y = Some r' \<and> eqv r r')"
  by (cases x; cases y) simp_all

lemma inch_tail_eqv:
  assumes R: "whitespace_plain R" and e: "eqv r r'"
    and p: "\<forall>a\<in>set p. a = 34 \<or> a = 40 \<or> a = 41 \<or> (97 \<le> a \<and> a \<le> 122)"
  shows "eqv (opt_lit R p (skip_ws (opt_quote (skip_ws r))))
             (opt_lit R p (skip_ws (opt_quote (skip_ws r'))))"
  by (intro opt_lit_eqv eqv_skip_ws opt_quote_eqv R e p)

lemma RE_DIM_INCH_eqv:
  assumes R: "whitespace_plain R" and e: "eqv s s'"
  shows "orel (RE_DIM_INCH R p s) (RE_DIM_INCH R p' s')"
proof -
  from orel_cases [OF number_eqv [OF R e]]
  consider (none) "number R s = None" "number R s' = None"
    | (some) w r r' where "number R s = Some (w, r)" "number R s' = Some (w, r')" "eqv r r'"
    by (elim disjE conjE exE) fast+
  then show ?thesis
  proof cases
    case none
    then show ?thesis by (simp add: RE_DIM_INCH_def)
  next
    case some
    let ?Y = "skip_ws (opt_lit R (u ''(w)'') (skip_ws (opt_quote (skip_ws r))))"
    let ?Y' = "skip_ws (opt_lit R (u ''(w)'') (skip_ws (opt_quote (skip_ws r'))))"
    have "eqv ?Y ?Y'"
      by (intro eqv_skip_ws inch_tail_eqv R some(3) pat_chars)
    from eqv_heads [OF this]
    consider (nil) "?Y = []" "?Y' = []"
      | (same) c t t' where "?Y = c # t" "?Y' = c # t'" "eqv t t'"
      | (sep) h t h' t' where "?Y = h # t" "?Y' = h' # t'"
          "isspace h \<or> isdelim h" "isspace h' \<or> isdelim h'"
      by blast
    then show ?thesis
    proof cases
      case nil
      with some show ?thesis by (simp add: RE_DIM_INCH_def)
    next
      case sep
      with some is_times_sep [OF R sep(3)] is_times_sep [OF R sep(4)]
      show ?thesis by (simp add: RE_DIM_INCH_def)
    next
      case same
      from orel_cases [OF number_eqv [OF R eqv_skip_ws [OF same(3)]]]
      consider (none2) "number R (skip_ws t) = None" "number R (skip_ws t') = None"
        | (some2) l q q' where "number R (skip_ws t) = Some (l, q)"
            "number R (skip_ws t') = Some (l, q')" "eqv q q'"
        by (elim disjE conjE exE) fast+
      then show ?thesis
      proof cases
        case none2
        with some same show ?thesis by (simp add: RE_DIM_INCH_def)
      next
        case some2
        have "eqv (opt_lit R (u ''(l)'') (skip_ws (opt_quote (skip_ws q))))
                  (opt_lit R (u ''(l)'') (skip_ws (opt_quote (skip_ws q'))))"
          by (intro inch_tail_eqv R some2(3) pat_chars)
        with some same some2 show ?thesis by (simp add: RE_DIM_INCH_def)
      qed
    qed
  qed
qed

lemma RE_DIM_CM_eqv:
  assumes R: "whitespace_plain R" and e: "eqv s s'"
  shows "orel (RE_DIM_CM R p s) (RE_DIM_CM R p' s')"
proof -
  from orel_cases [OF number_eqv [OF R e]]
  consider (none) "number R s = None" "number R s' = None"
    | (some) w r r' where "number R s = Some (w, r)" "number R s' = Some (w, r')" "eqv r r'"
    by (elim disjE conjE exE) fast+
  then show ?thesis
  proof cases
    case none
    then show ?thesis by (simp add: RE_DIM_CM_def)
  next
    case some
    from rel_option_eqv_cases [OF lit_ci_eqv [OF R pat_chars(3) eqv_skip_ws [OF some(3)]]]
    consider (nocm) "lit_ci R (u ''cm'') (skip_ws r) = None"
        "lit_ci R (u ''cm'') (skip_ws r') = None"
      | (cm) y y' where "lit_ci R (u ''cm'') (skip_ws r) = Some y"
          "lit_ci R (u ''cm'') (skip_ws r') = Some y'" "eqv y y'"
      by (elim disjE conjE exE) fast+
    then show ?thesis
    proof cases
      case nocm
      with some show ?thesis by (simp add: RE_DIM_CM_def)
    next
      case cm
      from eqv_heads [OF eqv_skip_ws [OF cm(3)]]
      consider (nil) "skip_ws y = []" "skip_ws y' = []"
        | (same) c t t' where "skip_ws y = c # t" "skip_ws y' = c # t'" "eqv t t'"
        | (sep) h t h' t' where "skip_ws y = h # t" "skip_ws y' = h' # t'"
            "isspace h \<or> isdelim h" "isspace h' \<or> isdelim h'"
        by blast
      then show ?thesis
      proof cases
        case nil
        with some cm show ?thesis by (simp add: RE_DIM_CM_def)
      next
        case sep
        with some cm is_times_sep [OF R sep(3)] is_times_sep [OF R sep(4)]
        show ?thesis by (simp add: RE_DIM_CM_def)
      next
        case same
        from orel_cases [OF number_eqv [OF R eqv_skip_ws [OF same(3)]]]
        consider (none2) "number R (skip_ws t) = None" "number R (skip_ws t') = None"
          | (some2) l q q' where "number R (skip_ws t) = Some (l, q)"
              "number R (skip_ws t') = Some (l, q')" "eqv q q'"
          by (elim disjE conjE exE) fast+
        then show ?thesis
        proof cases
          case none2
          with some cm same show ?thesis by (simp add: RE_DIM_CM_def)
        next
          case some2
          from rel_option_eqv_cases
            [OF lit_ci_eqv [OF R pat_chars(3) eqv_skip_ws [OF some2(3)]]]
          have "orel (map_option (Pair (w, l)) (lit_ci R (u ''cm'') (skip_ws q)))
                     (map_option (Pair (w, l)) (lit_ci R (u ''cm'') (skip_ws q')))"
            by auto
          with some cm same some2 show ?thesis by (simp add: RE_DIM_CM_def)
        qed
      qed
    qed
  qed
qed

lemma thick_value_eqv:
  assumes R: "whitespace_plain R" and e: "eqv s s'"
  shows "orel (thick_value R s) (thick_value R s')"
proof -
  from orel_cases [OF number_eqv [OF R e]]
  consider (none) "number R s = None" "number R s' = None"
    | (some) w r r' where "number R s = Some (w, r)" "number R s' = Some (w, r')" "eqv r r'"
    by (elim disjE conjE exE) fast+
  then show ?thesis
  proof cases
    case none
    then show ?thesis by (simp add: thick_value_def)
  next
    case some
    note sk = eqv_skip_ws [OF some(3)]
    from rel_option_eqv_cases [OF lit_ci_eqv [OF R pat_chars(5) sk]]
      rel_option_eqv_cases [OF lit_ci_eqv [OF R pat_chars(6) sk]]
      rel_option_eqv_cases [OF lit_ci_eqv [OF R pat_chars(7) sk]]
    show ?thesis
      unfolding thick_value_def some by (elim disjE conjE exE) simp_all
  qed
qed

lemma RE_THICK_eqv:
  assumes R: "whitespace_plain R" and e: "eqv s s'"
  shows "orel (RE_THICK R p s) (RE_THICK R p' s')"
proof -
  have tv: "orel (thick_value R x) (thick_value R x')" if "eqv x x'" for x x'
    using R that by (rule thick_value_eqv)
  have dr: "eqv (dropWhile (\<lambda>c. c = 58 \<or> isspace c) x) (dropWhile (\<lambda>c. c = 58 \<or> isspace c) x')"
    if "eqv x x'" for x x'
    using that
  proof (rule eqv_dropWhile)
    fix c
    assume "isdelim c"
    then show "\<not> (c = 58 \<or> isspace c)"
      using isdelim_not_space [of c] by (auto simp: isdelim_def)
  qed
  from rel_option_eqv_cases [OF lit_ci_eqv [OF R pat_chars(4) e]]
  consider (nopre) "lit_ci R (u ''thickness'') s = None" "lit_ci R (u ''thickness'') s' = None"
    | (pre) y y' where "lit_ci R (u ''thickness'') s = Some y"
        "lit_ci R (u ''thickness'') s' = Some y'" "eqv y y'"
    by (elim disjE conjE exE) fast+
  then show ?thesis
  proof cases
    case nopre
    with tv [OF e] show ?thesis by (simp add: RE_THICK_def)
  next
    case pre
    from orel_cases [OF tv [OF dr [OF pre(3)]]] orel_cases [OF tv [OF e]]
    show ?thesis
      unfolding RE_THICK_def pre by (elim disjE conjE exE) simp_all
  qed
qed

lemma number_sep:
  "whitespace_plain R \<Longrightarrow> isspace h \<or> isdelim h \<Longrightarrow> number R (h # t) = None"
  by (simp add: number_def sep_facts(2))

lemma RE_DIM_INCH_sep:
  "whitespace_plain R \<Longrightarrow> isspace h \<or> isdelim h \<Longrightarrow> RE_DIM_INCH R p (h # t) = None"
  by (simp add: RE_DIM_INCH_def number_sep)

lemma RE_DIM_CM_sep:
  "whitespace_plain R \<Longrightarrow> isspace h \<or> isdelim h \<Longrightarrow> RE_DIM_CM R p (h # t) = None"
  by (simp add: RE_DIM_CM_def number_sep)

lemma RE_THICK_sep:
  assumes "whitespace_plain R" and "isspace h \<or> isdelim h"
  shows "RE_THICK R p (h # t) = None"
proof -
  have "\<not> ci R 116 h" using assms by (rule ci_sep) simp
  then have "lit_ci R (u ''thickness'') (h # t) = None" by (simp add: u_def)
  with assms show ?thesis by (simp add: RE_THICK_def thick_value_def number_sep)
qed


lemma skip_block:
  assumes nostart: "\<And>p h t. isspace h \<or> isdelim h \<Longrightarrow> M p (h # t) = None"
  shows "\<forall>h\<in>set B. isspace h \<or> isdelim h \<Longrightarrow>
         \<exists>q. re_search_from M p (B @ s) = re_search_from M q s
            \<and> re_sub1_from M rep p (B @ s) = B @ re_sub1_from M rep q s"
proof (induction B arbitrary: p)
  case Nil
  then show ?case by auto
next
  case (Cons h B)
  then have "M p (h # B @ s) = None" by (simp add: nostart)
  moreover from Cons obtain q where
    "re_search_from M (Some h) (B @ s) = re_search_from M q s
       \<and> re_sub1_from M rep (Some h) (B @ s) = B @ re_sub1_from M rep q s"
    by fastforce
  ultimately show ?case by auto
qed

text \<open>A search and a substitution of the first match, in two delimiter-equivalent
  texts: the groups found are the same and the texts stay equivalent.\<close>

lemma stage_eqv:
  assumes resp: "\<And>p p' s s'. eqv s s' \<Longrightarrow> orel (M p s) (M p' s')"
    and nostart: "\<And>p h t. isspace h \<or> isdelim h \<Longrightarrow> M p (h # t) = None"
  shows "eqv s s' \<Longrightarrow>
         re_search_from M p s = re_search_from M p' s'
         \<and> eqv (re_sub1_from M rep p s) (re_sub1_from M rep p' s')"
proof (induction arbitrary: p p' rule: eqv.induct)
  case Nil
  then show ?case by (simp add: eqv.Nil)
next
  case (Cons s s' c)
  from orel_cases [OF resp [OF eqv.Cons [OF Cons.hyps], of p c p']]
  consider (none) "M p (c # s) = None" "M p' (c # s') = None"
    | (some) g r r' where "M p (c # s) = Some (g, r)" "M p' (c # s') = Some (g, r')" "eqv r r'"
    by (elim disjE conjE exE) fast+
  then show ?case
  proof cases
    case none
    with Cons.IH [of "Some c" "Some c"] show ?thesis by (simp add: eqv.Cons)
  next
    case some
    then show ?thesis by (simp add: eqv_prepend)
  qed
next
  case (Block B B' s s')
  from Block(1) have "\<forall>h\<in>set B. isspace h \<or> isdelim h" by (simp add: block_def)
  from skip_block [of M B p s rep, OF nostart this]
  obtain q where q: "re_search_from M p (B @ s) = re_search_from M q s"
    "re_sub1_from M rep p (B @ s) = B @ re_sub1_from M rep q s"
    by blast
  from Block(2) have "\<forall>h\<in>set B'. isspace h \<or> isdelim h" by (simp add: block_def)
  from skip_block [of M B' p' s' rep, OF nostart this]
  obtain q' where q': "re_search_from M p' (B' @ s') = re_search_from M q' s'"
    "re_sub1_from M rep p' (B' @ s') = B' @ re_sub1_from M rep q' s'"
    by blast
  from Block.IH [of q q'] Block(1,2) show ?case
    unfolding q q' by (simp add: eqv.Block)
qed

lemma search_sub_eqv:
  assumes resp: "\<And>p p' s s'. eqv s s' \<Longrightarrow> orel (M p s) (M p' s')"
    and nostart: "\<And>p h t. isspace h \<or> isdelim h \<Longrightarrow> M p (h # t) = None"
    and e: "eqv s s'"
  shows "re_search M s = re_search M s'" and "eqv (re_sub1 M rep s) (re_sub1 M rep s')"
  using stage_eqv [of M s s' None None rep, OF resp nostart e]
  by (simp_all add: re_search_def re_sub1_def)

lemma inch_search_eqv:
  assumes R: "whitespace_plain R" and e: "eqv x x'"
  shows "re_search (RE_DIM_INCH R) x = re_search (RE_DIM_INCH R) x'"
    and "eqv (re_sub1 (RE_DIM_INCH R) rep x) (re_sub1 (RE_DIM_INCH R) rep x')"
proof -
  have a: "\<And>p p' s s'. eqv s s' \<Longrightarrow> orel (RE_DIM_INCH R p s) (RE_DIM_INCH R p' s')"
    using R by (rule RE_DIM_INCH_eqv)
  have b: "\<And>p h t. isspace h \<or> isdelim h \<Longrightarrow> RE_DIM_INCH R p (h # t) = None"
    using R by (rule RE_DIM_INCH_sep)
  show "re_search (RE_DIM_INCH R) x = re_search (RE_DIM_INCH R) x'"
    by (rule search_sub_eqv(1) [of "RE_DIM_INCH R", OF a b e])
  show "eqv (re_sub1 (RE_DIM_INCH R) rep x) (re_sub1 (RE_DIM_INCH R) rep x')"
    by (rule search_sub_eqv(2) [of "RE_DIM_INCH R", OF a b e])
qed

lemma cm_search_eqv:
  assumes R: "whitespace_plain R" and e: "eqv x x'"
  shows "re_search (RE_DIM_CM R) x = re_search (RE_DIM_CM R) x'"
    and "eqv (re_sub1 (RE_DIM_CM R) rep x) (re_sub1 (RE_DIM_CM R) rep x')"
proof -
  have a: "\<And>p p' s s'. eqv s s' \<Longrightarrow> orel (RE_DIM_CM R p s) (RE_DIM_CM R p' s')"
    using R by (rule RE_DIM_CM_eqv)
  have b: "\<And>p h t. isspace h \<or> isdelim h \<Longrightarrow> RE_DIM_CM R p (h # t) = None"
    using R by (rule RE_DIM_CM_sep)
  show "re_search (RE_DIM_CM R) x = re_search (RE_DIM_CM R) x'"
    by (rule search_sub_eqv(1) [of "RE_DIM_CM R", OF a b e])
  show "eqv (re_sub1 (RE_DIM_CM R) rep x) (re_sub1 (RE_DIM_CM R) rep x')"
    by (rule search_sub_eqv(2) [of "RE_DIM_CM R", OF a b e])
qed

lemma thick_search_eqv:
  assumes R: "whitespace_plain R" and e: "eqv x x'"
  shows "re_search (RE_THICK R) x = re_search (RE_THICK R) x'"
proof -
  have a: "\<And>p p' s s'. eqv s s' \<Longrightarrow> orel (RE_THICK R p s) (RE_THICK R p' s')"
    using R by (rule RE_THICK_eqv)
  have b: "\<And>p h t. isspace h \<or> isdelim h \<Longrightarrow> RE_THICK R p (h # t) = None"
    using R by (rule RE_THICK_sep)
  show ?thesis
    by (rule search_sub_eqv(1) [of "RE_THICK R", OF a b e])
qed

text \<open>The dimensions found in two delimiter-equivalent texts are the same.\<close>

lemma normalize_dimensions_eqv:
  assumes R: "whitespace_plain R" and e: "eqv s s'"
  shows "snd (normalize_dimensions R s) = snd (normalize_dimensions R s')"
proof -
  define o1 where "o1 x = (case re_search (RE_DIM_INCH R) x of
      Some (w, l) \<Rightarrow> re_sub1 (RE_DIM_INCH R) (\<lambda>_. w @ [34, 32, 215, 32] @ l @ [34]) x
    | None \<Rightarrow> x)" for x
  define o2 where "o2 x = (case re_search (RE_DIM_CM R) x of
      Some (w, l) \<Rightarrow> re_sub1 (RE_DIM_CM R) (\<lambda>_. w @ [32, 215, 32] @ l @ u '' cm'') x
    | None \<Rightarrow> x)" for x
  have dm: "snd (normalize_dimensions R x)
      = (let d = (case re_search (RE_DIM_INCH R) x of
                    Some (w, l) \<Rightarrow> [''width_in'' \<mapsto> w, ''length_in'' \<mapsto> l]
                  | None \<Rightarrow> Map.empty);
             d = (case re_search (RE_DIM_CM R) (o1 x) of
                    Some (w, l) \<Rightarrow> d(''width_cm'' \<mapsto> w, ''length_cm'' \<mapsto> l)
                  | None \<Rightarrow> d)
         in (case re_search (RE_THICK R) (o2 (o1 x)) of
               Some t \<Rightarrow> d(''thickness_in'' \<mapsto> t)
             | None \<Rightarrow> d))" for x
    by (simp add: normalize_dimensions_def Let_def o1_def o2_def
        split: option.splits prod.splits)
  note inch = inch_search_eqv [OF R]
  note cm = cm_search_eqv [OF R]
  note thick = thick_search_eqv [OF R]
  have e1: "eqv (o1 s) (o1 s')"
    using inch [OF e] e by (auto simp: o1_def split: option.splits)
  have e2: "eqv (o2 (o1 s)) (o2 (o1 s'))"
    using cm [OF e1] e1 by (auto simp: o2_def split: option.splits)
  show ?thesis
    unfolding dm inch(1) [OF e] cm(1) [OF e1] thick [OF e2] ..
qed

text \<open>What a substitution of \<^verbatim>\<open>_normalize_delims\<close> matches is a block, and it puts a
  block in its place.\<close>

lemma re_sub_eqv:
  assumes blk: "\<And>p s r. D p s = Some ((), r) \<Longrightarrow> \<exists>B. s = B @ r \<and> block B"
    and K: "block K"
  shows "eqv s (re_sub_from D (\<lambda>_. K) p s)"
proof (induction "length s" arbitrary: p s rule: less_induct)
  case less
  show ?case
  proof (cases s)
    case Nil
    then show ?thesis by (simp add: eqv.Nil)
  next
    case (Cons c cs)
    show ?thesis
    proof (cases "D p (c # cs)")
      case None
      with less [of cs "Some c"] Cons show ?thesis by (simp add: eqv.Cons)
    next
      case (Some a)
      then obtain r where r: "D p (c # cs) = Some ((), r)" by (cases a) simp
      show ?thesis
      proof (cases "length r \<le> length cs")
        case False
        with r less [of cs "Some c"] Cons show ?thesis by (simp add: eqv.Cons)
      next
        case True
        from blk [OF r] obtain B where B: "c # cs = B @ r" "block B" by blast
        from True Cons have "length r < length s" by simp
        from less [OF this, of "last_before (c # cs) r"]
        have "eqv (B @ r) (K @ re_sub_from D (\<lambda>_. K) (last_before (c # cs) r) r)"
          using B(2) K by (auto intro: eqv.Block)
        then have "eqv (c # cs) (K @ re_sub_from D (\<lambda>_. K) (last_before (c # cs) r) r)"
          by (simp only: B(1))
        moreover have "re_sub_from D (\<lambda>_. K) p (c # cs)
            = K @ re_sub_from D (\<lambda>_. K) (last_before (c # cs) r) r"
          using r True by simp
        ultimately show ?thesis unfolding Cons by simp
      qed
    qed
  qed
qed

lemma block_ws_delim_ws:
  "isdelim c \<Longrightarrow> block (takeWhile isspace s @ c # takeWhile isspace r)"
  by (auto simp: block_def dest: set_takeWhileD)

lemma RE_DELIM_block:
  assumes "RE_DELIM p s = Some ((), r)"
  shows "\<exists>B. s = B @ r \<and> block B"
proof -
  from assms obtain c r0 where c: "skip_ws s = c # r0" "c = 124 \<or> c = 47" "r = skip_ws r0"
    by (auto simp: RE_DELIM_def split: list.splits if_splits)
  have "s = takeWhile isspace s @ skip_ws s" by (simp add: skip_ws_def)
  moreover have "r0 = takeWhile isspace r0 @ skip_ws r0" by (simp add: skip_ws_def)
  ultimately have "s = (takeWhile isspace s @ c # takeWhile isspace r0) @ r"
    using c by (metis append.assoc append_Cons)
  moreover have "block (takeWhile isspace s @ c # takeWhile isspace r0)"
    using c(2) by (intro block_ws_delim_ws) (auto simp: isdelim_def)
  ultimately show ?thesis by blast
qed

lemma block_append: "block A \<Longrightarrow> \<forall>c\<in>set B. isspace c \<or> isdelim c \<Longrightarrow> block (A @ B)"
  by (auto simp: block_def)

lemma RE_COMMAS_block:
  assumes "RE_COMMAS p s = Some ((), r)"
  shows "\<exists>B. s = B @ r \<and> block B"
proof -
  let ?comma = "\<lambda>c::nat. c = 44"
  from assms obtain r0 where c: "skip_ws s = 44 # r0"
    "r = skip_ws (dropWhile ?comma (skip_ws r0))"
    by (auto simp: RE_COMMAS_def split: list.splits if_splits)
  let ?cs = "takeWhile ?comma (skip_ws r0)"
  let ?r1 = "dropWhile ?comma (skip_ws r0)"
  let ?B = "(takeWhile isspace s @ 44 # takeWhile isspace r0) @ ?cs @ takeWhile isspace ?r1"
  have "s = takeWhile isspace s @ skip_ws s" by (simp add: skip_ws_def)
  moreover have "r0 = takeWhile isspace r0 @ skip_ws r0" by (simp add: skip_ws_def)
  moreover have "skip_ws r0 = ?cs @ ?r1" by simp
  moreover have "?r1 = takeWhile isspace ?r1 @ skip_ws ?r1" by (simp add: skip_ws_def)
  ultimately have "s = ?B @ r"
    using c by (metis append.assoc append_Cons)
  moreover have "block ?B"
    by (intro block_append block_ws_delim_ws)
      (auto simp: isdelim_def dest: set_takeWhileD)
  ultimately show ?thesis by blast
qed

lemma normalize_delims_eqv:
  "eqv s (re_sub RE_DELIM (\<lambda>_. u '', '') s)"
  "eqv s (re_sub RE_COMMAS (\<lambda>_. u '', '') s)"
proof -
  have K: "block (u '', '')" by (simp add: block_def u_def isdelim_def isspace_def)
  show "eqv s (re_sub RE_DELIM (\<lambda>_. u '', '') s)"
    unfolding re_sub_def using RE_DELIM_block K by (rule re_sub_eqv)
  show "eqv s (re_sub RE_COMMAS (\<lambda>_. u '', '') s)"
    unfolding re_sub_def using RE_COMMAS_block K by (rule re_sub_eqv)
qed

lemma whitespace_plain_ascii: "whitespace_plain ascii_runtime"
  unfolding whitespace_plain_def
proof (intro allI impI)
  fix c
  assume "isspace c"
  then have "c = 9 \<or> c = 10 \<or> c = 11 \<or> c = 12 \<or> c = 13 \<or> c = 28 \<or> c = 29 \<or> c = 30 \<or> c = 31
      \<or> c = 32 \<or> 128 \<le> c"
    unfolding isspace_def by (elim disjE conjE) (simp_all, arith+)
  then show "\<not> isdigit ascii_runtime c \<and> lower ascii_runtime c = c"
    by (elim disjE) (simp_all add: isdigit_def lower_def ascii_runtime_def)
qed

text \<open>
  C5: delimiter normalization does not change the dimensions that dimension extraction
  finds, for every text and every runtime in which no whitespace character is a decimal
  digit or has another lower case (as it is in the Unicode tables).
\<close>

theorem delims_keep_dimensions:
  assumes "whitespace_plain R"
  shows "snd (normalize_dimensions R (normalize_delims s)) = snd (normalize_dimensions R s)"
proof -
  let ?s1 = "re_sub RE_DELIM (\<lambda>_. u '', '') s"
  have "snd (normalize_dimensions R s) = snd (normalize_dimensions R ?s1)"
    using assms normalize_delims_eqv(1) by (rule normalize_dimensions_eqv)
  also have "\<dots> = snd (normalize_dimensions R (re_sub RE_COMMAS (\<lambda>_. u '', '') ?s1))"
    using assms normalize_delims_eqv(2) by (rule normalize_dimensions_eqv)
  finally show ?thesis by (simp add: normalize_delims_def Let_def)
qed

theorem delims_keep_dimensions_witness:
  "whitespace_plain ascii_runtime
   \<and> normalize_delims (u ''24 x 36 / 5cm x 7cm |0.2 in'') = u ''24 x 36, 5cm x 7cm, 0.2 in''
   \<and> snd (normalize_dimensions ascii_runtime (u ''24 x 36, 5cm x 7cm, 0.2 in''))
       = snd (normalize_dimensions ascii_runtime (u ''24 x 36 / 5cm x 7cm |0.2 in''))"
proof -
  have "normalize_delims (u ''24 x 36 / 5cm x 7cm |0.2 in'') = u ''24 x 36, 5cm x 7cm, 0.2 in''"
    by (simp add: chars delims re_sub_def skip_ws_def last_before_def)
  with delims_keep_dimensions [OF whitespace_plain_ascii, of "u ''24 x 36 / 5cm x 7cm |0.2 in''"]
    whitespace_plain_ascii
  show ?thesis by simp
qed


end
